theory Spec2Isabelle
  imports Complex_Main "HOL-Library.Word"
begin

unbundle bit_operations_syntax

chapter \<open>Oscilloscope host: acquisition, DDS planning, calibration, trigger and Bode analysis\<close>

text \<open>
  A shallow embedding of the core of the two-channel oscilloscope host
  (\<open>SerialHandler.cpp\<close>, \<open>MainWindow.cpp\<close>): the functions are HOL functions over
  explicit state, the model comes first and its properties follow.
\<close>

section \<open>Common conventions\<close>

text \<open>
  The host application is C++/Qt. An \<open>int\<close> of the source is a 32-bit two's complement
  integer; it is modelled as a HOL \<open>int\<close>, and \<open>wrap32\<close> is the value a 32-bit
  register holds after an operation whose exact result leaves \<open>[INT_MIN, INT_MAX]\<close>.
  Integer division of the source truncates towards zero (\<open>cdiv\<close>); dividing an integer
  by zero and indexing a \<open>QVector\<close> or \<open>std::vector\<close> outside its bounds are error
  values; a loop that never ends is the error \<open>NoReturn\<close>. A \<open>double\<close> is modelled as
  a \<open>real\<close>: rounding of the floating-point operations is not part of the model.
  Converting to \<open>int\<close> a \<open>double\<close> that is infinite, not a number or outside the range
  of \<open>int\<close> gives \<open>INT_MIN\<close>, as the conversion instruction of the processor does.
\<close>

datatype error = DivisionByZero | IndexOutOfRange | NoReturn

definition INT_MAX :: int where
  "INT_MAX = 2147483647"

definition INT_MIN :: int where
  "INT_MIN = - 2147483648"

definition wrap32 :: "int \<Rightarrow> int" where
  "wrap32 x = (x + 2147483648) mod 4294967296 - 2147483648"

definition cdiv :: "int \<Rightarrow> int \<Rightarrow> int" where
  "cdiv a b = sgn a * sgn b * (\<bar>a\<bar> div \<bar>b\<bar>)"

text \<open>\<open>std::round\<close> rounds halves away from zero; \<open>static_cast<int>\<close> truncates.\<close>

definition cpp_round :: "real \<Rightarrow> int" where
  "cpp_round x = (if 0 \<le> x then \<lfloor>x + 1 / 2\<rfloor> else \<lceil>x - 1 / 2\<rceil>)"

definition cpp_trunc :: "real \<Rightarrow> int" where
  "cpp_trunc x = (if 0 \<le> x then \<lfloor>x\<rfloor> else \<lceil>x\<rceil>)"

definition qvec_at :: "'a list \<Rightarrow> int \<Rightarrow> error + 'a" where
  "qvec_at xs i =
     (if 0 \<le> i \<and> i < int (length xs) then Inr (xs ! nat i) else Inl IndexOutOfRange)"

section \<open>Digital frequency generator (MainWindow::setDigitalFrequency)\<close>

text \<open>
  The function computes the count from the 32 MHz clock, walks the divider ladder and
  sends two frames, \<open>c\<close> (count, MSB then LSB) and \<open>d\<close> (divider index). The record
  holds the three locals at the end of the ladder and the two frames handed to
  \<open>sendCommand\<close>; a \<open>static_cast<char>\<close> keeps the low eight bits.
\<close>

record dig_plan =
  dig_divider :: int
  dig_index :: int
  dig_count :: int
  setDigCountCmd :: "8 word list"
  setDigIndexCmd :: "8 word list"

definition dig_frames :: "int \<Rightarrow> int \<Rightarrow> int \<Rightarrow> dig_plan" where
  "dig_frames d i c =
     \<lparr> dig_divider = d, dig_index = i, dig_count = c,
       setDigCountCmd = [0x63, word_of_int (cdiv c 256), word_of_int (c - 256 * cdiv c 256)],
       setDigIndexCmd = [0x64, word_of_int i, 0x00] \<rparr>"

definition setDigitalFrequency :: "int \<Rightarrow> error + dig_plan" where
  "setDigitalFrequency dig_freq =
     (if dig_freq = 0 then Inl DivisionByZero
      else
        let c0 = cdiv (32 * 1000000) dig_freq in
        if c0 > 65535 then
          let c1 = cdiv c0 2 in
          if c1 > 65535 then
            let c2 = cdiv c1 2 in
            if c2 > 65535 then
              let c3 = cdiv c2 2 in
              if c3 > 65535 then
                let c4 = cdiv c3 8 in
                if c4 > 65535 then
                  let c5 = cdiv c4 4 in
                  if c5 > 65535 then
                    let c6 = cdiv c5 4 in
                    Inr (dig_frames 1024 6 c6)
                  else Inr (dig_frames 256 5 c5)
                else Inr (dig_frames 64 4 c4)
              else Inr (dig_frames 8 3 c3)
            else Inr (dig_frames 4 2 c2)
          else Inr (dig_frames 2 1 c1)
        else Inr (dig_frames 1 0 c0))"

section \<open>DDS table fill (MainWindow::GetCount\_GetIndex)\<close>

text \<open>
  \<open>GetCount_GetIndex\<close> works on the members \<open>DDS_Table\<close> and \<open>DDS_Waveform\<close>
  (both \<open>QVector<uint8_t>\<close>), passed here as arguments; the new table, the count and
  the last index are returned. \<open>fill_state\<close> holds the locals of the \<open>while\<close> loop,
  \<open>fill_step\<close> is one pass through its body, \<open>pad_loop\<close> is the \<open>for\<close> loop that
  completes the table. The counters \<open>dds_count\<close> and \<open>unique_indices\<close> stay within
  \<open>[1, 512]\<close> and are natural numbers; the accumulator and the index are \<open>int\<close>, and
  the addition \<open>phase_accumulator += phase_step\<close> wraps at 32 bits. \<open>n >> 8\<close> on an
  \<open>int\<close> is the arithmetic shift, \<open>n div 256\<close>.
\<close>

record fill_state =
  phase_accumulator :: int
  dds_index :: int
  dds_count :: nat
  unique_indices :: nat
  last_index :: int
  seen :: "bool list"
  table :: "8 word list"

definition fill_step :: "8 word list \<Rightarrow> int \<Rightarrow> fill_state \<Rightarrow> error + fill_state" where
  "fill_step DDS_Waveform phase_step s =
     (let waveform_size = int (length DDS_Waveform);
          pa = wrap32 (phase_accumulator s + phase_step);
          shifted = pa div 256;
          idx = (if shifted \<ge> 256 then 255 else shifted)
      in case (if waveform_size > 0 \<and> idx < waveform_size then qvec_at DDS_Waveform idx
               else if waveform_size > 0 then Inr (last DDS_Waveform)
               else Inr 0) of
           Inl e \<Rightarrow> Inl e
         | Inr v \<Rightarrow>
             (case qvec_at (seen s) idx of
                Inl e \<Rightarrow> Inl e
              | Inr b \<Rightarrow>
                  Inr (s\<lparr> phase_accumulator := pa,
                          dds_index := idx,
                          table := (table s)[dds_count s := v],
                          seen := (if b then seen s else (seen s)[nat idx := True]),
                          unique_indices := (if b then unique_indices s else unique_indices s + 1),
                          last_index := idx,
                          dds_count := dds_count s + 1 \<rparr>)))"

function fill_loop :: "8 word list \<Rightarrow> int \<Rightarrow> fill_state \<Rightarrow> error + fill_state" where
  "fill_loop DDS_Waveform phase_step s =
     (if dds_count s < 512 \<and> unique_indices s < 256 \<and> dds_count s < length (table s)
      then (case fill_step DDS_Waveform phase_step s of
              Inl e \<Rightarrow> Inl e
            | Inr s' \<Rightarrow> fill_loop DDS_Waveform phase_step s')
      else Inr s)"
  by pat_completeness auto
termination
  by (relation "measure (\<lambda>(w, st, s). 512 - dds_count s)")
     (auto simp: fill_step_def Let_def split: sum.splits if_splits)

declare fill_loop.simps [simp del]

function pad_loop :: "8 word list \<Rightarrow> int \<Rightarrow> nat \<Rightarrow> 8 word list \<Rightarrow> error + 8 word list" where
  "pad_loop DDS_Waveform last_idx i tbl =
     (if i < 512 \<and> i < length tbl
      then (case (if length DDS_Waveform > 0 then qvec_at DDS_Waveform last_idx else Inr 0) of
              Inl e \<Rightarrow> Inl e
            | Inr v \<Rightarrow> pad_loop DDS_Waveform last_idx (i + 1) (tbl[i := v]))
      else Inr tbl)"
  by pat_completeness auto
termination
  by (relation "measure (\<lambda>(w, l, i, tbl). 512 - i)") auto

declare pad_loop.simps [simp del]

record fill_result =
  new_DDS_Table :: "8 word list"
  intermediate_dds_count :: nat
  debug_dds_index :: int

definition GetCount_GetIndex ::
  "8 word list \<Rightarrow> 8 word list \<Rightarrow> int \<Rightarrow> int \<Rightarrow> int \<Rightarrow> int \<Rightarrow> error + fill_result" where
  "GetCount_GetIndex tbl DDS_Waveform phase_acc phase_step dds_index_arg dds_count_arg =
     (let tbl0 = (if length tbl > 0
                  then tbl[0 := (if length DDS_Waveform > 0 then DDS_Waveform ! 0 else 0)]
                  else tbl);
          s0 = \<lparr> phase_accumulator = phase_acc, dds_index = 0, dds_count = 1,
                 unique_indices = 1, last_index = 0,
                 seen = (replicate 256 False)[0 := True], table = tbl0 \<rparr>
      in case fill_loop DDS_Waveform phase_step s0 of
           Inl e \<Rightarrow> Inl e
         | Inr s \<Rightarrow>
             (case pad_loop DDS_Waveform (last_index s) (dds_count s) (table s) of
                Inl e \<Rightarrow> Inl e
              | Inr t \<Rightarrow> Inr \<lparr> new_DDS_Table = t, intermediate_dds_count = dds_count s,
                              debug_dds_index = dds_index s \<rparr>))"


section \<open>DDS phase step (MainWindow::nextPowerOf2, MainWindow::get\_phase\_step)\<close>

text \<open>
  The loop of \<open>nextPowerOf2\<close> shifts \<open>n\<close> right until it is zero and counts the
  shifts. For a negative \<open>n\<close> the arithmetic shift never reaches zero, so the loop is a
  partial function: \<open>None\<close> is the run that does not return. \<open>1 << count\<close> is
  evaluated in 32 bits.
\<close>

partial_function (option) shift_count :: "int \<Rightarrow> nat \<Rightarrow> nat option" where
  "shift_count n count = (if n = 0 then Some count else shift_count (n div 2) (count + 1))"

declare shift_count.simps [code]

definition nextPowerOf2 :: "int \<Rightarrow> int option" where
  "nextPowerOf2 n =
     (if n = 0 then Some 1
      else map_option (\<lambda>count. wrap32 (2 ^ count)) (shift_count n 0))"

text \<open>
  \<open>get_phase_step\<close> floors \<open>frequency * 2^16 / fclock\<close>, computed in \<open>double\<close>,
  converts it to \<open>int\<close> and hands it to \<open>nextPowerOf2\<close>; a result below 1 is
  replaced by 1. With \<open>fclock = 0\<close> the quotient is infinite or not a number, its
  conversion is \<open>INT_MIN\<close>, and \<open>nextPowerOf2\<close> does not return on a negative argument.
\<close>

definition get_phase_step :: "int \<Rightarrow> int \<Rightarrow> error + int" where
  "get_phase_step frequency fclock =
     (let phase_step_int =
            (if fclock = 0 then INT_MIN
             else
               let phase_step_temp = (real_of_int frequency * 2 ^ 16) / real_of_int fclock;
                   floored = \<lfloor>phase_step_temp\<rfloor>
               in if INT_MIN \<le> floored \<and> floored \<le> INT_MAX then floored else INT_MIN)
      in case nextPowerOf2 phase_step_int of
           None \<Rightarrow> Inl NoReturn
         | Some step \<Rightarrow> Inr (if step < 1 then 1 else step))"

section \<open>DDS planner (MainWindow::setFrequency)\<close>

text \<open>
  \<open>setFrequency\<close> takes the members \<open>DDS_Waveform\<close> and \<open>DDS_Table\<close> and the
  frequency read from the spin box, and returns what it leaves in the members: the
  waveform resized to at least 256 entries, the table, the timer period, the sample
  count and the two command frames it fills in. \<open>resize_min\<close> is \<open>resize(n, 0)\<close>
  guarded by \<open>size() < n\<close>; \<open>stretch_loop\<close> is the \<open>for\<close> loop of the cycle-stretch
  path over the indices \<open>0 .. 511\<close>. Of the command arrays \<open>SetPeriodCmd\<close> and \<open>SamplesCmd\<close>
  the function writes bytes 1 and 2 only (\<open>runDDS\<close> stores the opcode in byte 0
  afterwards); \<open>SetPeriodCmd_1_2\<close> and \<open>SamplesCmd_1_2\<close> are these two bytes, the
  most significant first, as \<open>msb_lsb\<close> computes them. The locals \<open>fout\<close>, \<open>clock_corrected\<close> and \<open>frequency_corrected\<close> are
  \<open>double\<close> in the source and real numbers here.
\<close>

definition resize_min :: "nat \<Rightarrow> 8 word list \<Rightarrow> 8 word list" where
  "resize_min n xs = (if length xs < n then xs @ replicate (n - length xs) 0 else xs)"

fun stretch_loop :: "8 word list \<Rightarrow> nat list \<Rightarrow> 8 word list \<Rightarrow> error + 8 word list" where
  "stretch_loop DDS_Waveform [] tbl = Inr tbl"
| "stretch_loop DDS_Waveform (i # is) tbl =
     (let waveform_size = int (length DDS_Waveform);
          table_index = cpp_round (real_of_int (int i * (waveform_size - 1)) / real_of_int (512 - 1))
      in case qvec_at DDS_Waveform table_index of
           Inl e \<Rightarrow> Inl e
         | Inr v \<Rightarrow> stretch_loop DDS_Waveform is (tbl[i := v]))"

record dds_plan =
  plan_Waveform :: "8 word list"
  plan_Table :: "8 word list"
  useCycleStretch :: bool
  Ph_step_Powof2 :: int
  no_of_samples :: int
  timer_period :: int
  frequency_corrected :: real
  dds_array_length :: int
  SetPeriodCmd_1_2 :: "8 word list"
  SamplesCmd_1_2 :: "8 word list"

definition msb_lsb :: "int \<Rightarrow> 8 word list" where
  "msb_lsb v = [word_of_int (cdiv v 256), word_of_int (v - 256 * cdiv v 256)]"

definition setFrequency :: "8 word list \<Rightarrow> 8 word list \<Rightarrow> int \<Rightarrow> error + dds_plan" where
  "setFrequency DDS_Waveform0 DDS_Table0 Frequency =
     (let DDS_Waveform = resize_min 256 DDS_Waveform0;
          DDS_Table = replicate (length (resize_min 512 DDS_Table0)) 0;
          divider = 32;
          timer_clock = 32 * 1000000;
          fclock = cdiv timer_clock divider;
          useCycleStretch = (Frequency < 1000)
      in if useCycleStretch then
           (let N = 512 in
            case stretch_loop DDS_Waveform [0..<512] DDS_Table of
              Inl e \<Rightarrow> Inl e
            | Inr tbl \<Rightarrow>
                if wrap32 (Frequency * N) = 0 then Inl DivisionByZero
                else
                  let timer_period0 = cdiv timer_clock (wrap32 (Frequency * N));
                      timer_period = (if timer_period0 > 65535 then 65535 else timer_period0);
                      no_of_samples = (if N > 512 then 512 else N)
                  in Inr \<lparr> plan_Waveform = DDS_Waveform, plan_Table = tbl,
                           useCycleStretch = True, Ph_step_Powof2 = 0,
                           no_of_samples = no_of_samples, timer_period = timer_period,
                           frequency_corrected = 0, dds_array_length = N - 1,
                           SetPeriodCmd_1_2 = msb_lsb timer_period,
                           SamplesCmd_1_2 = msb_lsb no_of_samples \<rparr>)
         else
           (case get_phase_step Frequency fclock of
              Inl e \<Rightarrow> Inl e
            | Inr step \<Rightarrow>
                (case GetCount_GetIndex DDS_Table DDS_Waveform 0 step 0 0 of
                   Inl e \<Rightarrow> Inl e
                 | Inr r \<Rightarrow>
                     let fout = real_of_int step * (real_of_int fclock * 1 / 2 ^ 16);
                         no_of_samples0 = cpp_trunc (real_of_int fclock / fout);
                         divider_corrected0 =
                           cpp_round (real_of_int divider * (fout * 1 / real_of_int Frequency));
                         divider_corrected =
                           (if divider_corrected0 > 65535 then 65535 else divider_corrected0)
                     in if divider_corrected = 0 then Inl DivisionByZero
                        else
                          let clock_corrected = real_of_int (cdiv timer_clock divider_corrected) * 1;
                              frequency_corrected =
                                (real_of_int step * clock_corrected) / 2 ^ 16 * 1;
                              timer_period0 = divider_corrected;
                              dds_array_length = int (intermediate_dds_count r) - 1;
                              tbl = new_DDS_Table r;
                              tbl' = (if tbl ! nat dds_array_length = 0 \<and> dds_array_length > 0
                                      then tbl[nat dds_array_length := tbl ! nat (dds_array_length - 1)]
                                      else tbl);
                              timer_period = (if timer_period0 > 65535 then 65535 else timer_period0);
                              no_of_samples = (if no_of_samples0 > 512 then 512 else no_of_samples0)
                          in Inr \<lparr> plan_Waveform = DDS_Waveform, plan_Table = tbl',
                                   useCycleStretch = False, Ph_step_Powof2 = step,
                                   no_of_samples = no_of_samples, timer_period = timer_period,
                                   frequency_corrected = frequency_corrected,
                                   dds_array_length = dds_array_length,
                                   SetPeriodCmd_1_2 = msb_lsb timer_period,
                                   SamplesCmd_1_2 = msb_lsb no_of_samples \<rparr>)))"

text \<open>The sine master waveform of \<open>initializeWaveformTables\<close>, 256 entries.\<close>

definition sinTable :: "8 word list" where
  "sinTable =
     [
      122, 124, 127, 130, 133, 136, 139, 142, 144, 147, 150, 153, 155, 158, 161, 164,
      166, 169, 172, 174, 177, 179, 182, 184, 187, 189, 191, 193, 196, 198, 200, 202,
      204, 206, 208, 210, 212, 214, 215, 217, 219, 220, 222, 223, 225, 226, 227, 228,
      230, 231, 232, 233, 233, 234, 235, 236, 236, 237, 237, 238, 238, 238, 238, 238,
      239, 238, 238, 238, 238, 238, 237, 237, 236, 236, 235, 234, 233, 233, 232, 231,
      230, 228, 227, 226, 225, 223, 222, 220, 219, 217, 215, 214, 212, 210, 208, 206,
      204, 202, 200, 198, 196, 193, 191, 189, 187, 184, 182, 179, 177, 174, 172, 169,
      166, 164, 161, 158, 155, 153, 150, 147, 144, 142, 139, 136, 133, 130, 127, 124,
      122, 120, 117, 114, 111, 108, 105, 102, 100, 97, 94, 91, 89, 86, 83, 80,
      78, 75, 72, 70, 67, 65, 62, 60, 57, 55, 53, 51, 48, 46, 44, 42,
      40, 38, 36, 34, 32, 30, 29, 27, 25, 24, 22, 21, 19, 18, 17, 16,
      14, 13, 12, 11, 11, 10, 9, 8, 8, 7, 7, 6, 6, 6, 6, 6,
      5, 6, 6, 6, 6, 6, 7, 7, 8, 8, 9, 10, 11, 11, 12, 13,
      14, 16, 17, 18, 19, 21, 22, 24, 25, 27, 29, 30, 32, 34, 36, 38,
      40, 42, 44, 46, 48, 51, 53, 55, 57, 60, 62, 65, 67, 70, 72, 75,
      78, 80, 83, 86, 89, 91, 94, 97, 100, 102, 105, 108, 111, 114, 117, 120]"


text \<open>The square master waveform of \<open>initializeWaveformTables\<close>: its initialiser has 230 entries.\<close>

definition squareTable :: "8 word list" where
  "squareTable =
     [
      5, 5, 5, 5, 5, 5, 5, 5, 5, 5, 5, 5, 5, 5, 5, 5,
      5, 5, 5, 5, 5, 5, 5, 5, 5, 5, 5, 5, 5, 5, 5, 5,
      5, 5, 5, 5, 5, 5, 5, 5, 5, 5, 5, 5, 5, 5, 5, 5,
      5, 5, 5, 5, 5, 5, 5, 5, 5, 5, 5, 5, 5, 5, 5, 5,
      5, 5, 5, 5, 5, 5, 5, 5, 5, 5, 5, 5, 5, 5, 5, 5,
      5, 5, 5, 5, 5, 5, 5, 5, 5, 5, 5, 5, 5, 5, 5, 5,
      5, 5, 5, 5, 5, 5, 5, 5, 5, 5, 5, 5, 5, 5, 5, 5,
      5, 5, 5, 5, 5, 5, 5, 5, 5, 5, 5, 5, 5, 5, 5, 5,
      5, 5, 5, 5, 250, 250, 250, 250, 250, 250, 250, 250, 250, 250, 250, 250,
      250, 250, 250, 250, 250, 250, 250, 250, 250, 250, 250, 250, 250, 250, 250, 250,
      250, 250, 250, 250, 250, 250, 250, 250, 250, 250, 250, 250, 250, 250, 250, 250,
      250, 250, 250, 250, 250, 250, 250, 250, 250, 250, 250, 250, 250, 250, 250, 250,
      250, 250, 250, 250, 250, 250, 250, 250, 250, 250, 250, 250, 250, 250, 250, 250,
      250, 250, 250, 250, 250, 250, 250, 250, 250, 250, 250, 250, 250, 250, 250, 250,
      250, 250, 250, 250, 250, 250]"

section \<open>Acquisition state machine (SerialHandler)\<close>

text \<open>
  The record holds the members of \<open>SerialHandler\<close> that the acquisition uses, and
  three components for its surroundings: \<open>rx_buffer\<close>, the bytes the serial port has
  received and not yet handed over (\<open>bytesAvailable\<close>, \<open>read\<close>, \<open>readAll\<close>);
  \<open>written\<close>, the arguments of the calls of \<open>serial->write\<close>, in order; \<open>emitted\<close>,
  the signals emitted. A single-shot \<open>QTimer\<close> is \<open>Some ms\<close> while it runs with that
  interval and \<open>None\<close> otherwise. The port is open throughout. Assigning an \<open>int\<close> to
  a byte of a \<open>QByteArray\<close> keeps its low eight bits.
\<close>

datatype AcquisitionState = Idle | WaitingForDone | WaitingForCh1 | WaitingForCh2 | Complete

datatype signal =
  oscilloscopeRawDataReady "8 word list" "8 word list" int bool
| errorOccurred AcquisitionState

record SerialHandler =
  acqState :: AcquisitionState
  acqMode :: int
  acqDataLength :: int
  acqDualChannel :: bool
  ch1Raw :: "8 word list"
  ch2Raw :: "8 word list"
  bytesNeeded :: int
  ch1Offset :: int
  ch2Offset :: int
  trigLevel :: int
  trigSource :: int
  trigPolarity :: int
  sampleRateIdx :: int
  timeoutTimer :: "nat option"
  setupStep :: int
  setupTimer :: "nat option"
  acquisitionInProgress :: bool
  rx_buffer :: "8 word list"
  written :: "8 word list list"
  emitted :: "signal list"

definition STATE_TIMEOUT_MS :: nat where
  "STATE_TIMEOUT_MS = 5000"

text \<open>The handler as its constructor and the member initialisers of the header leave it.\<close>

definition new_SerialHandler :: SerialHandler where
  "new_SerialHandler =
     \<lparr> acqState = Idle, acqMode = 1, acqDataLength = 200, acqDualChannel = True,
       ch1Raw = [], ch2Raw = [], bytesNeeded = 0,
       ch1Offset = 0, ch2Offset = 0, trigLevel = 0, trigSource = 0, trigPolarity = 0,
       sampleRateIdx = 3, timeoutTimer = None, setupStep = 0, setupTimer = None,
       acquisitionInProgress = False, rx_buffer = [], written = [], emitted = [] \<rparr>"

definition serial_write :: "8 word list \<Rightarrow> SerialHandler \<Rightarrow> SerialHandler" where
  "serial_write cmd s = s\<lparr> written := written s @ [cmd] \<rparr>"

definition setProtocolParams ::
  "int \<Rightarrow> int \<Rightarrow> int \<Rightarrow> int \<Rightarrow> int \<Rightarrow> int \<Rightarrow> SerialHandler \<Rightarrow> SerialHandler" where
  "setProtocolParams ch1Off ch2Off trigLvl trigSrc trigPol srIdx s =
     s\<lparr> ch1Offset := ch1Off, ch2Offset := ch2Off, trigLevel := trigLvl,
        trigSource := trigSrc, trigPolarity := trigPol, sampleRateIdx := srIdx \<rparr>"

definition resetAcquisitionState :: "SerialHandler \<Rightarrow> SerialHandler" where
  "resetAcquisitionState s =
     s\<lparr> acqState := Idle, acqDataLength := 200, acqDualChannel := True,
        ch1Raw := [], ch2Raw := [], bytesNeeded := 0, acqMode := 1,
        timeoutTimer := None, acquisitionInProgress := False \<rparr>"

text \<open>
  In steps 0 and 1 the two offset commands are commented out in the source: the step
  writes nothing, and goes on to \<open>setupStep++\<close> and \<open>setupTimer->start(50)\<close> as the
  other steps do.
\<close>

definition handleSetupStep :: "SerialHandler \<Rightarrow> SerialHandler" where
  "handleSetupStep s =
     (let next_step = (\<lambda>t. t\<lparr> setupStep := wrap32 (setupStep t + 1), setupTimer := Some 50 \<rparr>) in
      if setupStep s = 0 then next_step s
      else if setupStep s = 1 then next_step s
      else if setupStep s = 2 then
        next_step (serial_write [0x54, word_of_int (trigSource s), 0x00] s)
      else if setupStep s = 3 then
        next_step (serial_write [0x50, word_of_int (trigPolarity s), 0x00] s)
      else if setupStep s = 4 then
        next_step (serial_write
          [0x4C, word_of_int (trigLevel s div 256), word_of_int (trigLevel s)] s)
      else if setupStep s = 5 then
        next_step (serial_write [0x46, word_of_int (acqMode s), 0x00] s)
      else if setupStep s = 6 then
        next_step (serial_write [0x53, word_of_int (sampleRateIdx s), 0x00] s)
      else if setupStep s = 7 then
        (serial_write [0x43, 0x00, 0x00] s)
          \<lparr> acqState := WaitingForDone, bytesNeeded := 1,
            timeoutTimer := Some STATE_TIMEOUT_MS \<rparr>
      else s)"

definition sendSetupSequence :: "SerialHandler \<Rightarrow> SerialHandler" where
  "sendSetupSequence s = handleSetupStep (s\<lparr> setupStep := 0 \<rparr>)"

definition startOscilloscopeAcquisition ::
  "int \<Rightarrow> int \<Rightarrow> bool \<Rightarrow> SerialHandler \<Rightarrow> SerialHandler" where
  "startOscilloscopeAcquisition mode dataLength dualChannel s =
     (if acquisitionInProgress s then s
      else
        let s1 = s\<lparr> acquisitionInProgress := True \<rparr>;
            s2 = resetAcquisitionState s1;
            s3 = s2\<lparr> acqMode := mode, acqDataLength := dataLength,
                     acqDualChannel := dualChannel \<rparr>
        in sendSetupSequence s3)"

text \<open>The expiry of a single-shot timer stops it and runs the slot connected to it.\<close>

definition setupTimer_timeout :: "SerialHandler \<Rightarrow> SerialHandler" where
  "setupTimer_timeout s = handleSetupStep (s\<lparr> setupTimer := None \<rparr>)"

definition timeoutTimer_timeout :: "SerialHandler \<Rightarrow> SerialHandler" where
  "timeoutTimer_timeout s =
     resetAcquisitionState
       (s\<lparr> timeoutTimer := None, rx_buffer := [],
           emitted := emitted s @ [errorOccurred (acqState s)] \<rparr>)"

text \<open>
  Every branch of the \<open>while (serial->bytesAvailable() > 0)\<close> loop of
  \<open>handleReadyRead\<close> ends in \<open>return\<close>, so the body runs at most once per call.
\<close>

definition handleReadyRead :: "SerialHandler \<Rightarrow> SerialHandler" where
  "handleReadyRead s =
     (if \<not> int (length (rx_buffer s)) > 0 then s
      else if acqState s = Idle then s\<lparr> rx_buffer := [] \<rparr>
      else if acqState s = WaitingForDone then
        (if int (length (rx_buffer s)) < bytesNeeded s then s
         else if bytesNeeded s \<le> 0 \<or> int (length (rx_buffer s)) < bytesNeeded s then s
         else
           let s1 = s\<lparr> ch1Raw := [], ch2Raw := [], rx_buffer := [] \<rparr>;
               (dcmd, s2) =
                 (if acqDualChannel s1 then
                    ([0x44, 0x01, 0x00], s1\<lparr> bytesNeeded := 200, acqState := WaitingForCh1 \<rparr>)
                  else if acqMode s1 = 2 then
                    ([0x44, 0x03, 0x00], s1\<lparr> bytesNeeded := 400, acqState := WaitingForCh1 \<rparr>)
                  else if acqMode s1 = 3 then
                    ([0x44, 0x04, 0x00], s1\<lparr> bytesNeeded := 400, acqState := WaitingForCh2 \<rparr>)
                  else ([], s1))
           in (serial_write dcmd s2)\<lparr> timeoutTimer := Some STATE_TIMEOUT_MS \<rparr>)
      else if acqState s = WaitingForCh1 then
        (if int (length (rx_buffer s)) < bytesNeeded s then s
         else if bytesNeeded s \<le> 0 \<or> int (length (rx_buffer s)) < bytesNeeded s then s
         else
           let s1 = s\<lparr> ch1Raw := take (nat (bytesNeeded s)) (rx_buffer s),
                       rx_buffer := drop (nat (bytesNeeded s)) (rx_buffer s) \<rparr>
           in if acqDualChannel s1 then
                (serial_write [0x44, 0x02, 0x00] s1)
                  \<lparr> bytesNeeded := 200, acqState := WaitingForCh2,
                    timeoutTimer := Some STATE_TIMEOUT_MS \<rparr>
              else if acqMode s1 = 2 then
                resetAcquisitionState
                  (s1\<lparr> acqState := Complete, timeoutTimer := None,
                       emitted := emitted s1 @
                         [oscilloscopeRawDataReady (ch1Raw s1) [] (acqDataLength s1) False] \<rparr>)
              else s1)
      else if acqState s = WaitingForCh2 then
        (if int (length (rx_buffer s)) < bytesNeeded s then s
         else if bytesNeeded s \<le> 0 \<or> int (length (rx_buffer s)) < bytesNeeded s then s
         else
           let s1 = s\<lparr> ch2Raw := take (nat (bytesNeeded s)) (rx_buffer s),
                       rx_buffer := drop (nat (bytesNeeded s)) (rx_buffer s),
                       acqState := Complete, timeoutTimer := None \<rparr>;
               s2 = (if acqDualChannel s1 then
                       s1\<lparr> emitted := emitted s1 @
                             [oscilloscopeRawDataReady (ch1Raw s1) (ch2Raw s1) (acqDataLength s1) True] \<rparr>
                     else if acqMode s1 = 3 then
                       s1\<lparr> emitted := emitted s1 @
                             [oscilloscopeRawDataReady [] (ch2Raw s1) (acqDataLength s1) False] \<rparr>
                     else s1)
           in resetAcquisitionState s2)
      else s\<lparr> rx_buffer := [] \<rparr>)"

text \<open>Bytes arriving on the port are appended to its buffer, then \<open>readyRead\<close> fires.\<close>

definition receive :: "8 word list \<Rightarrow> SerialHandler \<Rightarrow> SerialHandler" where
  "receive bytes s = handleReadyRead (s\<lparr> rx_buffer := rx_buffer s @ bytes \<rparr>)"


text \<open>
  \<open>setup_run k\<close> is the handler after an accepted start and \<open>k\<close> expiries of the
  setup timer.
\<close>

definition setup_run :: "nat \<Rightarrow> int \<Rightarrow> int \<Rightarrow> bool \<Rightarrow> SerialHandler \<Rightarrow> SerialHandler" where
  "setup_run k mode dataLength dualChannel s =
     (setupTimer_timeout ^^ k) (startOscilloscopeAcquisition mode dataLength dualChannel s)"

section \<open>Calibration (MainWindow::onOscilloscopeRawDataReady, conversion loops)\<close>

text \<open>
  A raw sample is a \<open>char\<close> of a \<open>QByteArray\<close>; \<open>static_cast<unsigned char>\<close> reads
  it as a value in \<open>[0, 255]\<close>, the \<open>unat\<close> of the byte. The gains are the \<open>double\<close>
  members \<open>ch1Gain\<close>, \<open>ch2Gain\<close>, the offsets the \<open>int\<close> members of \<open>MainWindow\<close>,
  passed as arguments. The constant \<open>OC1\<close> is 0.0 in the source.
\<close>

definition ch1_voltage :: "8 word \<Rightarrow> real \<Rightarrow> int \<Rightarrow> real" where
  "ch1_voltage sample gain1 offset1 =
     (let scaleFactor = 5.0 / 4.8;
          OC1 = 0.0;
          fixedOffset = 4.00;
          ch1UIOffset = (real_of_int offset1 / 100.0) / 2.0;
          adcValue = real (unat sample);
          voltage = (((adcValue * 10.0 / 128.0) - 10.0 + OC1) * scaleFactor / gain1)
                      + OC1 + fixedOffset + ch1UIOffset
      in voltage - 3.78)"

definition ch2_voltage :: "8 word \<Rightarrow> real \<Rightarrow> int \<Rightarrow> real" where
  "ch2_voltage sample gain2 offset2 =
     (let scaleFactor = 5.0 / 4.8;
          fixedOffset = 4.00;
          ch2UIOffset = (real_of_int offset2 / 100.0) / 2.0;
          adcValue = real (unat sample);
          voltage = (((adcValue * 10.0 / 128.0) - 10.0) * scaleFactor / gain2)
                      + fixedOffset + ch2UIOffset
      in voltage - 3.78)"

definition convert_ch1 :: "8 word list \<Rightarrow> real \<Rightarrow> int \<Rightarrow> real list" where
  "convert_ch1 ch1 gain1 offset1 = map (\<lambda>b. ch1_voltage b gain1 offset1) ch1"

definition convert_ch2 :: "8 word list \<Rightarrow> real \<Rightarrow> int \<Rightarrow> real list" where
  "convert_ch2 ch2 gain2 offset2 = map (\<lambda>b. ch2_voltage b gain2 offset2) ch2"

text \<open>The calibration equation as the specification writes it.\<close>

definition spec_voltage :: "real \<Rightarrow> nat \<Rightarrow> real \<Rightarrow> int \<Rightarrow> real" where
  "spec_voltage OC adc g ui_offset =
     ((real adc * 10 / 128 - 10 + OC) * 5 / 4.8 / g) + OC + 4.0 + real_of_int ui_offset / 200 - 3.78"

section \<open>Trigger stage (MainWindow::checkTriggerCondition and its caller)\<close>

text \<open>
  The three radio buttons of the trigger source are exclusive; \<open>TrigRadio\<close> is the one
  that is checked. \<open>std::min_element\<close> and \<open>std::max_element\<close> are only reached on a
  non-empty vector.
\<close>

datatype TrigRadio = autoTrigRadio | ch1TrigRadio | ch2TrigRadio









section \<open>Bode analysis (MainWindow::plotBodePlot, magnitude and invalid marks)\<close>

text \<open>
  \<open>log10\<close> of the C library is defined on positive arguments only: at zero it is minus
  infinity, below zero it is not a number. The recorded magnitude is therefore a value
  of \<open>dB\<close>. The phase of a point is computed from the same two waveforms and does not
  enter the magnitude or the invalid mark; it is left out.
\<close>

datatype dB = Finite real | MinusInfinity | NotANumber

definition cpp_log10 :: "real \<Rightarrow> dB" where
  "cpp_log10 x = (if x > 0 then Finite (log 10 x) else if x = 0 then MinusInfinity else NotANumber)"

definition times20 :: "dB \<Rightarrow> dB" where
  "times20 v = (case v of Finite r \<Rightarrow> Finite (20.0 * r) | MinusInfinity \<Rightarrow> MinusInfinity
                | NotANumber \<Rightarrow> NotANumber)"

definition findLocalExtrema :: "real list \<Rightarrow> real \<times> real" where
  "findLocalExtrema data =
     (let N = length data;
          maxs = map (\<lambda>i. data ! i)
                   (filter (\<lambda>i. data ! i > data ! (i - 1) \<and> data ! i > data ! (i + 1)) [1..<N - 1]);
          mins = map (\<lambda>i. data ! i)
                   (filter (\<lambda>i. data ! i < data ! (i - 1) \<and> data ! i < data ! (i + 1)) [1..<N - 1]);
          avgMax = (if maxs = [] then 0.0 else sum_list maxs / real (length maxs));
          avgMin = (if mins = [] then 0.0 else sum_list mins / real (length mins))
      in (avgMax, avgMin))"

record bode_point =
  magnitude :: dB
  invalid :: bool

text \<open>One pass of the loop over the sweep points.\<close>

definition bode_point_of :: "real list \<Rightarrow> real list \<Rightarrow> bode_point" where
  "bode_point_of inWaveFull outWaveFull =
     (let N = min (length inWaveFull) (length outWaveFull) in
      if N \<le> 20 then \<lparr> magnitude = Finite 0.0, invalid = True \<rparr>
      else
        let inWave = drop 20 inWaveFull;
            outWave = drop 20 outWaveFull;
            (inAvgMax, inAvgMin) = findLocalExtrema inWave;
            (outAvgMax, outAvgMin) = findLocalExtrema outWave;
            inAmp = (inAvgMax - inAvgMin) / 2.0;
            outAmp = (outAvgMax - outAvgMin) / 2.0;
            gain = (if inAmp > 1 / 10 ^ 9 then times20 (cpp_log10 (outAmp / inAmp)) else Finite 0.0)
        in \<lparr> magnitude = gain, invalid = (inAmp \<le> 1 / 10 ^ 9 \<or> outAmp \<le> 1 / 10 ^ 9) \<rparr>)"

text \<open>
  The loop itself; the function returns without a plot when a list is empty or the
  sizes differ.
\<close>

definition plotBodePlot :: "real list \<Rightarrow> real list list \<Rightarrow> real list list \<Rightarrow> bode_point list option" where
  "plotBodePlot sweepFrequencies sweepInputWaves sweepOutputWaves =
     (if sweepFrequencies = [] \<or> sweepInputWaves = [] \<or> sweepOutputWaves = [] then None
      else if length sweepFrequencies = length sweepInputWaves then
        if length sweepFrequencies = length sweepOutputWaves then
          Some (map (\<lambda>i. bode_point_of (sweepInputWaves ! i) (sweepOutputWaves ! i))
                   [0..<length sweepFrequencies])
        else None
      else None)"

text \<open>The amplitude of a waveform as the specification defines it.\<close>

definition spec_amplitude :: "real list \<Rightarrow> real" where
  "spec_amplitude wave = (let (avgMax, avgMin) = findLocalExtrema (drop 20 wave) in (avgMax - avgMin) / 2)"


text \<open>
  Two frames of 200 samples: a wave of amplitude 1 behind 20 settling samples, and a
  flat line.
\<close>

definition sweep_input_wave :: "real list" where
  "sweep_input_wave = replicate 20 0 @ concat (replicate 45 [0, 1, 0, -1])"

definition sweep_flat_output :: "real list" where
  "sweep_flat_output = replicate 200 (22 / 100)"

section \<open>Loop invariants\<close>

text \<open>The invariant of the \<open>while\<close> loop of \<open>GetCount_GetIndex\<close>, used in the proofs below.\<close>

definition fill_inv :: "8 word list \<Rightarrow> int \<Rightarrow> 8 word list \<Rightarrow> fill_state \<Rightarrow> bool" where
  "fill_inv w st tbl s \<longleftrightarrow>
     length (seen s) = 256 \<and> length (table s) = length tbl \<and>
     0 \<le> last_index s \<and> last_index s \<le> 255 \<and>
     0 \<le> dds_index s \<and> dds_index s \<le> 255 \<and>
     1 \<le> dds_count s \<and> dds_count s \<le> 512 \<and>
     0 \<le> phase_accumulator s \<and>
     phase_accumulator s + int (512 - dds_count s) * st \<le> INT_MAX \<and>
     (\<forall>i < dds_count s. i < length tbl \<longrightarrow> table s ! i \<in> set w) \<and>
     (\<forall>i \<ge> 512. i < length tbl \<longrightarrow> table s ! i = tbl ! i)"

section \<open>Properties of the digital frequency planner\<close>

lemma cdiv_nonneg: "0 \<le> a \<Longrightarrow> 0 < b \<Longrightarrow> cdiv a b = a div b"
  by (cases "a = 0") (simp_all add: cdiv_def)

lemma dig_frames_sel [simp]:
  "dig_count (dig_frames d i c) = c" "dig_index (dig_frames d i c) = i"
  "dig_divider (dig_frames d i c) = d"
  by (simp_all add: dig_frames_def)

lemma dig_count0_bounds:
  assumes "1 \<le> f"
  shows "0 \<le> cdiv 32000000 f" "cdiv 32000000 f \<le> 32000000"
proof -
  have eq: "cdiv 32000000 f = 32000000 div f"
    using assms by (simp add: cdiv_nonneg)
  show "0 \<le> cdiv 32000000 f"
    using assms by (simp add: eq pos_imp_zdiv_nonneg_iff)
  have "32000000 div f \<le> 32000000 div 1"
    using assms by (intro zdiv_mono2) simp_all
  then show "cdiv 32000000 f \<le> 32000000"
    by (simp add: eq)
qed

text \<open>
  C10. For every target frequency \<open>f_d \<ge> 1\<close> the planner returns (the ladder is a fixed
  nest of six tests, so it always ends) with a final count in \<open>[0, 65535]\<close> and a
  divider index in \<open>[0, 6]\<close>; \<open>f_d = 0\<close> is outside the domain, the division
  \<open>32 000 000 / f_d\<close> being unguarded.
\<close>

theorem setDigitalFrequency_bounds:
  "setDigitalFrequency 0 = Inl DivisionByZero \<and>
   (\<forall>f. 1 \<le> f \<longrightarrow>
      (\<exists>p. setDigitalFrequency f = Inr p \<and>
           0 \<le> dig_count p \<and> dig_count p \<le> 65535 \<and>
           0 \<le> dig_index p \<and> dig_index p \<le> 6))"
proof (intro conjI allI impI)
  show "setDigitalFrequency 0 = Inl DivisionByZero"
    by (simp add: setDigitalFrequency_def)
next
  fix f :: int
  assume f: "1 \<le> f"
  define c0 where "c0 = cdiv 32000000 f"
  have c0: "0 \<le> c0" "c0 \<le> 32000000"
    using dig_count0_bounds [OF f] by (simp_all add: c0_def)
  define c1 where "c1 = cdiv c0 2"
  define c2 where "c2 = cdiv c1 2"
  define c3 where "c3 = cdiv c2 2"
  define c4 where "c4 = cdiv c3 8"
  define c5 where "c5 = cdiv c4 4"
  define c6 where "c6 = cdiv c5 4"
  have c1: "0 \<le> c1" "c1 \<le> 16000000"
    using c0 by (simp_all add: c1_def cdiv_nonneg)
  have c2: "0 \<le> c2" "c2 \<le> 8000000"
    using c1 by (simp_all add: c2_def cdiv_nonneg)
  have c3: "0 \<le> c3" "c3 \<le> 4000000"
    using c2 by (simp_all add: c3_def cdiv_nonneg)
  have c4: "0 \<le> c4" "c4 \<le> 500000"
    using c3 by (simp_all add: c4_def cdiv_nonneg)
  have c5: "0 \<le> c5" "c5 \<le> 125000"
    using c4 by (simp_all add: c5_def cdiv_nonneg)
  have c6: "0 \<le> c6" "c6 \<le> 31250"
    using c5 by (simp_all add: c6_def cdiv_nonneg)
  have "f \<noteq> 0" using f by simp
  then show "\<exists>p. setDigitalFrequency f = Inr p \<and>
           0 \<le> dig_count p \<and> dig_count p \<le> 65535 \<and>
           0 \<le> dig_index p \<and> dig_index p \<le> 6"
    unfolding setDigitalFrequency_def Let_def
    using c0 c1 c2 c3 c4 c5 c6
    by (simp add: c0_def [symmetric] c1_def [symmetric] c2_def [symmetric]
        c3_def [symmetric] c4_def [symmetric] c5_def [symmetric] c6_def [symmetric])
qed

theorem setDigitalFrequency_bounds_witness:
  "(1::int) \<le> 1 \<and>
   (\<exists>p. setDigitalFrequency 1 = Inr p \<and> dig_count p = 31250 \<and> dig_index p = 6)"
proof -
  from setDigitalFrequency_bounds
  have "\<exists>p. setDigitalFrequency 1 = Inr p \<and>
           0 \<le> dig_count p \<and> dig_count p \<le> 65535 \<and>
           0 \<le> dig_index p \<and> dig_index p \<le> 6"
    by simp
  then obtain p where p: "setDigitalFrequency 1 = Inr p" by blast
  have "setDigitalFrequency 1 = Inr (dig_frames 1024 6 31250)"
    by (simp add: setDigitalFrequency_def cdiv_def)
  with p show ?thesis by auto
qed

section \<open>Properties of the DDS table fill\<close>

lemma wrap32_id: "INT_MIN \<le> x \<Longrightarrow> x \<le> INT_MAX \<Longrightarrow> wrap32 x = x"
  by (simp add: wrap32_def INT_MIN_def INT_MAX_def)

lemma fill_step_inv:
  assumes inv: "fill_inv w st tbl s"
    and c: "dds_count s < 512" "dds_count s < length (table s)"
    and w: "w \<noteq> []" and st: "1 \<le> st"
  shows "\<exists>s'. fill_step w st s = Inr s' \<and> fill_inv w st tbl s'"
proof -
  define pa where "pa = phase_accumulator s + st"
  define idx where "idx = (if pa div 256 \<ge> 256 then 255 else pa div 256)"
  from inv have pa0: "0 \<le> phase_accumulator s"
    and bound: "phase_accumulator s + int (512 - dds_count s) * st \<le> INT_MAX"
    unfolding fill_inv_def by blast+
  have split: "int (512 - dds_count s) * st = st + int (512 - (dds_count s + 1)) * st"
  proof -
    have "int (512 - dds_count s) = 1 + int (512 - (dds_count s + 1))"
      using c(1) by simp
    then show ?thesis by (simp add: algebra_simps)
  qed
  have rest: "0 \<le> int (512 - (dds_count s + 1)) * st"
    using st by simp
  have pa_pos: "0 \<le> pa" using pa0 st by (simp add: pa_def)
  have pa_le: "pa \<le> INT_MAX" using bound split rest by (simp add: pa_def)
  have wr: "wrap32 (phase_accumulator s + st) = pa"
    using pa_pos pa_le by (simp add: pa_def [symmetric] wrap32_id INT_MIN_def)
  have idx: "0 \<le> idx" "idx \<le> 255"
    using pa_pos by (simp_all add: idx_def pos_imp_zdiv_nonneg_iff)
  define v where "v = (if idx < int (length w) then w ! nat idx else last w)"
  have v: "v \<in> set w"
    using w idx by (auto simp: v_def)
  have seen_len: "length (seen s) = 256" using inv by (simp add: fill_inv_def)
  define b where "b = seen s ! nat idx"
  define s' where "s' = s\<lparr> phase_accumulator := pa, dds_index := idx,
                          table := (table s)[dds_count s := v],
                          seen := (if b then seen s else (seen s)[nat idx := True]),
                          unique_indices := (if b then unique_indices s else unique_indices s + 1),
                          last_index := idx, dds_count := dds_count s + 1 \<rparr>"
  have step: "fill_step w st s = Inr s'"
    using w idx seen_len
    by (simp add: fill_step_def Let_def wr idx_def [symmetric] qvec_at_def v_def b_def s'_def)
  have len: "length (table s) = length tbl" using inv by (simp add: fill_inv_def)
  have old: "\<And>i. i < dds_count s \<Longrightarrow> i < length tbl \<Longrightarrow> table s ! i \<in> set w"
    and keep: "\<And>i. 512 \<le> i \<Longrightarrow> i < length tbl \<Longrightarrow> table s ! i = tbl ! i"
    using inv by (simp_all add: fill_inv_def)
  have new: "\<And>i. i < dds_count s + 1 \<Longrightarrow> i < length tbl \<Longrightarrow>
                (table s)[dds_count s := v] ! i \<in> set w"
    using old v len by (auto simp: nth_list_update less_Suc_eq)
  have keep': "\<And>i. 512 \<le> i \<Longrightarrow> i < length tbl \<Longrightarrow>
                (table s)[dds_count s := v] ! i = tbl ! i"
    using keep c(1) by (simp add: nth_list_update)
  have bound': "pa + int (512 - (dds_count s + 1)) * st \<le> INT_MAX"
    using bound split by (simp add: pa_def)
  have "fill_inv w st tbl s'"
    unfolding fill_inv_def
    using idx pa_pos bound' new keep' c(1) len seen_len
    by (simp add: s'_def)
  with step show ?thesis by blast
qed

lemma fill_loop_inv:
  assumes "fill_inv w st tbl s" "w \<noteq> []" "1 \<le> st"
  shows "\<exists>s'. fill_loop w st s = Inr s' \<and> fill_inv w st tbl s'"
  using assms
proof (induction w st s rule: fill_loop.induct)
  case (1 w st s)
  show ?case
  proof (cases "dds_count s < 512 \<and> unique_indices s < 256 \<and> dds_count s < length (table s)")
    case True
    with fill_step_inv [OF "1.prems"(1) _ _ "1.prems"(2,3)]
    obtain s1 where s1: "fill_step w st s = Inr s1" "fill_inv w st tbl s1"
      by blast
    from "1.IH" [OF True s1(1) s1(2) "1.prems"(2,3)]
    obtain s' where "fill_loop w st s1 = Inr s'" "fill_inv w st tbl s'"
      by blast
    with True s1(1) show ?thesis
      by (subst fill_loop.simps) simp
  next
    case False
    have "fill_loop w st s = Inr s"
      by (subst fill_loop.simps) (simp only: False if_False)
    with "1.prems"(1) show ?thesis by blast
  qed
qed

lemma pad_loop_fill:
  assumes "0 \<le> l" "l < int (length w)"
  shows "\<exists>t. pad_loop w l i tbl = Inr t \<and> length t = length tbl \<and>
             (\<forall>j < i. j < length tbl \<longrightarrow> t ! j = tbl ! j) \<and>
             (\<forall>j \<ge> i. j < 512 \<longrightarrow> j < length tbl \<longrightarrow> t ! j = w ! nat l) \<and>
             (\<forall>j \<ge> 512. j < length tbl \<longrightarrow> t ! j = tbl ! j)"
  using assms
proof (induction w l i tbl rule: pad_loop.induct)
  case (1 w l i tbl)
  show ?case
  proof (cases "i < 512 \<and> i < length tbl")
    case True
    have q: "(if length w > 0 then qvec_at w l else Inr 0) = Inr (w ! nat l)"
      using "1.prems" by (auto simp: qvec_at_def)
    from "1.IH" [OF True q "1.prems"]
    obtain t where t: "pad_loop w l (i + 1) (tbl[i := w ! nat l]) = Inr t"
      "length t = length tbl"
      "\<forall>j < i + 1. j < length tbl \<longrightarrow> t ! j = tbl[i := w ! nat l] ! j"
      "\<forall>j \<ge> i + 1. j < 512 \<longrightarrow> j < length tbl \<longrightarrow> t ! j = w ! nat l"
      "\<forall>j \<ge> 512. j < length tbl \<longrightarrow> t ! j = tbl[i := w ! nat l] ! j"
      by auto
    have eq: "pad_loop w l i tbl = Inr t"
      using True q t(1) by (subst pad_loop.simps) simp
    have a: "\<forall>j < i. j < length tbl \<longrightarrow> t ! j = tbl ! j"
      using t(3) by (auto simp: nth_list_update)
    have b: "\<forall>j \<ge> i. j < 512 \<longrightarrow> j < length tbl \<longrightarrow> t ! j = w ! nat l"
    proof (intro allI impI)
      fix j assume j: "i \<le> j" "j < 512" "j < length tbl"
      show "t ! j = w ! nat l"
      proof (cases "j = i")
        case True
        with t(3) j show ?thesis by (simp add: nth_list_update)
      next
        case False
        with j t(4) show ?thesis by simp
      qed
    qed
    have c: "\<forall>j \<ge> 512. j < length tbl \<longrightarrow> t ! j = tbl ! j"
      using t(5) True by (auto simp: nth_list_update)
    from eq t(2) a b c show ?thesis by blast
  next
    case False
    have "pad_loop w l i tbl = Inr tbl"
      by (subst pad_loop.simps) (simp only: False if_False)
    with False show ?thesis by auto
  qed
qed

lemma GetCount_GetIndex_total:
  assumes st: "1 \<le> phase_step" "511 * phase_step \<le> INT_MAX"
    and w: "256 \<le> length w"
  shows "\<exists>r. GetCount_GetIndex tbl w 0 phase_step di dc = Inr r \<and>
             length (new_DDS_Table r) = length tbl \<and>
             (\<forall>i \<ge> 512. i < length tbl \<longrightarrow> new_DDS_Table r ! i = tbl ! i) \<and>
             (\<forall>i < 512. i < length tbl \<longrightarrow> new_DDS_Table r ! i \<in> set w) \<and>
             0 \<le> debug_dds_index r \<and> debug_dds_index r \<le> 255 \<and>
             1 \<le> intermediate_dds_count r \<and> intermediate_dds_count r \<le> 512"
proof -
  have wne: "w \<noteq> []" using w by auto
  define tbl0 where "tbl0 = (if length tbl > 0
                  then tbl[0 := (if length w > 0 then w ! 0 else 0)] else tbl)"
  define s0 where "s0 = \<lparr> phase_accumulator = 0, dds_index = 0, dds_count = 1,
                 unique_indices = 1, last_index = 0,
                 seen = (replicate 256 False)[0 := True], table = tbl0 \<rparr>"
  have w0: "w ! 0 \<in> set w" using wne by simp
  have "fill_inv w phase_step tbl s0"
    unfolding fill_inv_def using st w0 wne
    by (auto simp: s0_def tbl0_def nth_list_update)
  from fill_loop_inv [OF this wne st(1)]
  obtain s where s: "fill_loop w phase_step s0 = Inr s" "fill_inv w phase_step tbl s"
    by blast
  have l: "0 \<le> last_index s" "last_index s < int (length w)"
    using s(2) w by (simp_all add: fill_inv_def)
  from pad_loop_fill [OF l, of "dds_count s" "table s"]
  obtain t where t: "pad_loop w (last_index s) (dds_count s) (table s) = Inr t"
    "length t = length (table s)"
    "\<forall>j < dds_count s. j < length (table s) \<longrightarrow> t ! j = table s ! j"
    "\<forall>j \<ge> dds_count s. j < 512 \<longrightarrow> j < length (table s) \<longrightarrow> t ! j = w ! nat (last_index s)"
    "\<forall>j \<ge> 512. j < length (table s) \<longrightarrow> t ! j = table s ! j"
    by blast
  define r where "r = \<lparr> new_DDS_Table = t, intermediate_dds_count = dds_count s,
                              debug_dds_index = dds_index s \<rparr>"
  have run: "GetCount_GetIndex tbl w 0 phase_step di dc = Inr r"
    unfolding GetCount_GetIndex_def Let_def r_def
    using s(1) [unfolded s0_def tbl0_def] t(1)
    by (simp only: sum.case)
  have len: "length (table s) = length tbl" using s(2) by (simp add: fill_inv_def)
  have lw: "w ! nat (last_index s) \<in> set w"
    using l by simp
  have mem: "\<forall>i < 512. i < length tbl \<longrightarrow> t ! i \<in> set w"
  proof (intro allI impI)
    fix i assume i: "i < 512" "i < length tbl"
    show "t ! i \<in> set w"
    proof (cases "i < dds_count s")
      case True
      with t(3) i len have "t ! i = table s ! i" by simp
      with s(2) True i show ?thesis by (simp add: fill_inv_def)
    next
      case False
      with t(4) i len have "t ! i = w ! nat (last_index s)" by simp
      with lw show ?thesis by simp
    qed
  qed
  have keep: "\<forall>i \<ge> 512. i < length tbl \<longrightarrow> t ! i = tbl ! i"
    using t(5) s(2) len by (simp add: fill_inv_def)
  have rng: "0 \<le> dds_index s" "dds_index s \<le> 255" "1 \<le> dds_count s" "dds_count s \<le> 512"
    using s(2) by (simp_all add: fill_inv_def)
  from run t(2) len mem keep rng show ?thesis
    by (intro exI [of _ r]) (simp add: r_def)
qed

section \<open>Properties of the DDS phase step and planner\<close>

lemma shift_count_nonneg:
  "0 \<le> n \<Longrightarrow>
   \<exists>k. shift_count n c = Some (c + k) \<and> n < 2 ^ k \<and> (n = 0 \<longrightarrow> k = 0) \<and>
       (n \<noteq> 0 \<longrightarrow> 2 ^ k \<le> 2 * n)"
proof (induction "nat n" arbitrary: n c rule: less_induct)
  case less
  show ?case
  proof (cases "n = 0")
    case True
    then show ?thesis by (simp add: shift_count.simps)
  next
    case False
    with less.prems have pos: "0 < n" by simp
    then have "nat (n div 2) < nat n" "0 \<le> n div 2" by simp_all
    from less.hyps [OF this, of "c + 1"] obtain k where
      k: "shift_count (n div 2) (c + 1) = Some (c + 1 + k)" "n div 2 < 2 ^ k"
         "n div 2 = 0 \<longrightarrow> k = 0" "n div 2 \<noteq> 0 \<longrightarrow> 2 ^ k \<le> 2 * (n div 2)"
      by blast
    have 1: "shift_count n c = Some (c + Suc k)"
      using False k(1) by (subst shift_count.simps) simp
    have 2: "n < 2 ^ Suc k" using k(2) by simp
    have 3: "(2::int) ^ Suc k \<le> 2 * n"
    proof (cases "n div 2 = 0")
      case True
      with k(3) pos show ?thesis by simp
    next
      case False
      with k(4) have "2 ^ k \<le> 2 * (n div 2)" by simp
      also have "\<dots> \<le> n" by simp
      finally show ?thesis by simp
    qed
    from 1 2 3 False show ?thesis by blast
  qed
qed

text \<open>A run of the shift loop that returns started from a non-negative number.\<close>

lemma shift_count_returns_nonneg:
  assumes "shift_count n c = Some y"
  shows "0 \<le> n"
proof -
  have step: "0 \<le> m"
    if IH: "\<And>k b z. f k b = Some z \<Longrightarrow> 0 \<le> k"
      and eq: "(if m = 0 then Some b else f (m div 2) (b + 1)) = Some z"
    for f :: "int \<Rightarrow> nat \<Rightarrow> nat option" and m :: int and b z :: nat
  proof (cases "m = 0")
    case True
    then show ?thesis by simp
  next
    case False
    with eq have "f (m div 2) (b + 1) = Some z" by simp
    then have "0 \<le> m div 2" by (rule IH)
    then show ?thesis by simp
  qed
  show ?thesis
    by (rule shift_count.raw_induct [where P = "\<lambda>n c y. 0 \<le> n", OF step assms])
qed

lemma shift_count_negative: "n < 0 \<Longrightarrow> shift_count n c = None"
  using shift_count_returns_nonneg [of n c] by (cases "shift_count n c") auto

lemma get_phase_step_fclock_0: "get_phase_step frequency 0 = Inl NoReturn"
  by (simp add: get_phase_step_def nextPowerOf2_def INT_MIN_def shift_count_negative)

lemma nextPowerOf2_pos:
  assumes "1 \<le> x"
  shows "\<exists>k. nextPowerOf2 x = Some (wrap32 (2 ^ k)) \<and> x < 2 ^ k \<and> 2 ^ k \<le> 2 * x"
proof -
  from assms have "0 \<le> x" "x \<noteq> 0" by simp_all
  with shift_count_nonneg [of x 0] obtain k where
    "shift_count x 0 = Some k" "x < 2 ^ k" "2 ^ k \<le> 2 * x"
    by auto
  with \<open>x \<noteq> 0\<close> show ?thesis
    by (auto simp: nextPowerOf2_def)
qed

lemma pow2_le_2pow31:
  assumes "(2::int) ^ k \<le> 2 * x" "x \<le> INT_MAX"
  shows "k \<le> 31"
proof (rule ccontr)
  assume "\<not> k \<le> 31"
  then have "32 \<le> k" by simp
  then have "(2::int) ^ 32 \<le> 2 ^ k" by (rule power_increasing) simp
  with assms show False by (simp add: INT_MAX_def)
qed

lemma pow2_lt_2pow31:
  assumes "(2::int) ^ k \<le> 2 * x" "x < 2 ^ 30"
  shows "k \<le> 30"
proof (rule ccontr)
  assume "\<not> k \<le> 30"
  then have "31 \<le> k" by simp
  then have "(2::int) ^ 31 \<le> 2 ^ k" by (rule power_increasing) simp
  with assms show False by simp
qed

lemma wrap32_pow2_small: "k \<le> 30 \<Longrightarrow> wrap32 (2 ^ k) = 2 ^ k"
proof -
  assume "k \<le> 30"
  then have "(2::int) ^ k \<le> 2 ^ 30" by (rule power_increasing) simp
  moreover have "- 2147483648 \<le> (2::int) ^ k"
    by (rule order_trans [of _ 0]) simp_all
  ultimately show ?thesis
    by (intro wrap32_id) (simp_all add: INT_MIN_def INT_MAX_def)
qed

lemma wrap32_pow2_nonzero: "k \<le> 31 \<Longrightarrow> wrap32 (2 ^ k) \<noteq> 0"
proof (cases "k = 31")
  case True
  then show ?thesis by (simp add: wrap32_def)
next
  case False
  assume "k \<le> 31"
  with False have "k \<le> 30" by simp
  then have "wrap32 (2 ^ k) = 2 ^ k" by (rule wrap32_pow2_small)
  then show ?thesis by simp
qed

text \<open>
  C3 (as the code has it). For every \<open>x\<close> with \<open>1 \<le> x \<le> INT_MAX\<close> the function returns
  and its result is not zero. For \<open>1 \<le> x < 2^30\<close> the result is the smallest power of two
  strictly greater than \<open>x\<close>, that is \<open>2^(floor(log2 x) + 1)\<close>; on a power of two it is
  \<open>2 * x\<close>, not \<open>x\<close>.
\<close>

theorem nextPowerOf2_strict:
  "(1 \<le> x \<and> x \<le> INT_MAX \<longrightarrow> (\<exists>r. nextPowerOf2 x = Some r \<and> r \<noteq> 0)) \<and>
   (1 \<le> x \<and> x < 2 ^ 30 \<longrightarrow>
      (\<exists>k. nextPowerOf2 x = Some (2 ^ k) \<and> x < 2 ^ k \<and> (\<forall>j. x < 2 ^ j \<longrightarrow> k \<le> j) \<and>
           (\<forall>j. x = 2 ^ j \<longrightarrow> nextPowerOf2 x = Some (2 * x))))"
proof (intro conjI impI)
  assume x: "1 \<le> x \<and> x \<le> INT_MAX"
  then obtain k where k: "nextPowerOf2 x = Some (wrap32 (2 ^ k))" "2 ^ k \<le> 2 * x"
    using nextPowerOf2_pos [of x] by blast
  from k(2) x have "k \<le> 31" by (intro pow2_le_2pow31 [of k x]) simp_all
  then have "wrap32 (2 ^ k) \<noteq> 0" by (rule wrap32_pow2_nonzero)
  with k(1) show "\<exists>r. nextPowerOf2 x = Some r \<and> r \<noteq> 0" by blast
next
  assume x: "1 \<le> x \<and> x < 2 ^ 30"
  then obtain k where k: "nextPowerOf2 x = Some (wrap32 (2 ^ k))" "x < 2 ^ k" "2 ^ k \<le> 2 * x"
    using nextPowerOf2_pos [of x] by blast
  from k(3) x have "k \<le> 30" by (intro pow2_lt_2pow31 [of k x]) simp_all
  then have w: "wrap32 (2 ^ k) = 2 ^ k" by (rule wrap32_pow2_small)
  have least: "\<forall>j. x < 2 ^ j \<longrightarrow> k \<le> j"
  proof (intro allI impI, rule ccontr)
    fix j assume j: "x < 2 ^ j" "\<not> k \<le> j"
    then have "Suc j \<le> k" by simp
    then have "(2::int) ^ Suc j \<le> 2 ^ k" by (rule power_increasing) simp
    with k(3) j(1) show False by simp
  qed
  have dbl: "\<forall>j. x = 2 ^ j \<longrightarrow> nextPowerOf2 x = Some (2 * x)"
  proof (intro allI impI)
    fix j assume xj: "x = 2 ^ j"
    with k(2) have "(2::int) ^ j < 2 ^ k" by simp
    then have "j < k" by (simp add: power_strict_increasing_iff)
    moreover from k(3) xj have "(2::int) ^ k \<le> 2 ^ Suc j" by simp
    then have "k \<le> Suc j" by (simp add: power_increasing_iff del: power_Suc)
    ultimately have "k = Suc j" by simp
    with k(1) w xj show "nextPowerOf2 x = Some (2 * x)" by simp
  qed
  from k(1,2) w least dbl
  show "\<exists>k. nextPowerOf2 x = Some (2 ^ k) \<and> x < 2 ^ k \<and> (\<forall>j. x < 2 ^ j \<longrightarrow> k \<le> j) \<and>
           (\<forall>j. x = 2 ^ j \<longrightarrow> nextPowerOf2 x = Some (2 * x))"
    by (intro exI [of _ k]) simp
qed

theorem nextPowerOf2_strict_witness:
  "(1::int) \<le> 4 \<and> (4::int) \<le> INT_MAX \<and> (4::int) < 2 ^ 30 \<and> (4::int) = 2 ^ 2 \<and>
   nextPowerOf2 4 = Some (2 * 4) \<and> (\<exists>r. nextPowerOf2 4 = Some r \<and> r \<noteq> 0)"
proof -
  have h1: "1 \<le> (4::int) \<and> (4::int) \<le> INT_MAX" by (simp add: INT_MAX_def)
  have h2: "1 \<le> (4::int) \<and> (4::int) < 2 ^ 30" by simp
  from nextPowerOf2_strict [of 4] h1 h2
  have a: "\<exists>r. nextPowerOf2 4 = Some r \<and> r \<noteq> 0"
    and b: "\<forall>j. (4::int) = 2 ^ j \<longrightarrow> nextPowerOf2 4 = Some (2 * 4)"
    by blast+
  from b have "(4::int) = 2 ^ 2 \<longrightarrow> nextPowerOf2 4 = Some (2 * 4)" by (rule spec)
  then have "nextPowerOf2 4 = Some (2 * 4)" by simp
  with a h1 h2 show ?thesis by simp
qed

theorem nextPowerOf2_counterexample:
  "nextPowerOf2 4 = Some 8 \<and> (4::int) \<le> 2 ^ 2 \<and> (2::int) ^ 2 < 8"
  by (simp add: nextPowerOf2_def shift_count.simps wrap32_def)


lemma resize_min_length: "n \<le> length (resize_min n xs)"
  by (simp add: resize_min_def)

lemma get_phase_step_1000: "get_phase_step 1000 1000000 = Inr 128"
  by (simp add: get_phase_step_def nextPowerOf2_def shift_count.simps wrap32_def
      INT_MIN_def INT_MAX_def Let_def)

lemma setFrequency_1000_plan:
  "\<exists>p. setFrequency w tbl 1000 = Inr p \<and> useCycleStretch p = False \<and>
       Ph_step_Powof2 p = 128 \<and> no_of_samples p = 512 \<and> timer_period p = 63 \<and>
       frequency_corrected p = 15873 / 16"
proof -
  have "\<exists>r. GetCount_GetIndex (replicate (length (resize_min 512 tbl)) 0)
              (resize_min 256 w) 0 128 0 0 = Inr r"
    using GetCount_GetIndex_total [of 128 "resize_min 256 w"
        "replicate (length (resize_min 512 tbl)) 0" 0 0]
    by (auto simp: INT_MAX_def resize_min_length)
  then obtain r where r: "GetCount_GetIndex (replicate (length (resize_min 512 tbl)) 0)
              (resize_min 256 w) 0 128 0 0 = Inr r"
    by blast
  have fclock: "cdiv 32000000 32 = 1000000"
    by (simp add: cdiv_def)
  have c: "cdiv 32000000 63 = 507936"
    by (simp add: cdiv_def)
  show ?thesis
    by (simp add: setFrequency_def Let_def fclock get_phase_step_1000 r c
        cpp_trunc_def cpp_round_def)
qed

text \<open>
  C2 (as the code has it). At 1000 Hz the test \<open>Frequency < 1000\<close> fails, so the planner
  takes the standard path, for every master waveform: the phase step is 128, the sample
  count is 512 and the timer period is \<open>round(32 * 1953.125 / 1000) = round(62.5) = 63\<close>;
  the realized frequency, both as the code computes it and as
  \<open>32 000 000 / (timer_period * sample_count)\<close>, is within 2 percent of 1 kHz.
\<close>

theorem setFrequency_1000:
  "\<exists>p. setFrequency w tbl 1000 = Inr p \<and> \<not> useCycleStretch p \<and>
       Ph_step_Powof2 p = 128 \<and> no_of_samples p = 512 \<and> timer_period p = 63 \<and>
       \<bar>frequency_corrected p - 1000\<bar> / 1000 \<le> 2 / 100 \<and>
       \<bar>32000000 / real_of_int (timer_period p * no_of_samples p) - 1000\<bar> / 1000 \<le> 2 / 100"
proof -
  from setFrequency_1000_plan [of w tbl] obtain p where
    p: "setFrequency w tbl 1000 = Inr p" "useCycleStretch p = False"
       "Ph_step_Powof2 p = 128" "no_of_samples p = 512" "timer_period p = 63"
       "frequency_corrected p = 15873 / 16"
    by blast
  have "\<bar>frequency_corrected p - 1000\<bar> / 1000 \<le> 2 / 100"
    by (simp add: p(6))
  moreover have "\<bar>32000000 / real_of_int (timer_period p * no_of_samples p) - 1000\<bar> / 1000
      \<le> 2 / 100"
    by (simp add: p(4,5))
  ultimately show ?thesis using p by blast
qed

theorem setFrequency_1000_witness:
  "\<exists>p. setFrequency sinTable (replicate 512 0) 1000 = Inr p \<and> timer_period p = 63 \<and>
       no_of_samples p = 512"
  using setFrequency_1000 [of sinTable "replicate 512 0"] by blast

theorem setFrequency_1000_counterexample:
  "map_sum id (\<lambda>p. (useCycleStretch p, no_of_samples p, timer_period p))
     (setFrequency sinTable (replicate 512 0) 1000) = Inr (False, 512, 63)"
proof -
  from setFrequency_1000_plan [of sinTable "replicate 512 0"] obtain p where
    "setFrequency sinTable (replicate 512 0) 1000 = Inr p" "useCycleStretch p = False"
    "no_of_samples p = 512" "timer_period p = 63"
    by blast
  then show ?thesis by simp
qed

lemma square_fill:
  "GetCount_GetIndex (replicate 512 0) (resize_min 256 squareTable) 0 128 0 0 =
     Inr \<lparr> new_DDS_Table = map (\<lambda>k. resize_min 256 squareTable ! (k div 2)) [0..<511] @ [0],
           intermediate_dds_count = 511, debug_dds_index = 255 \<rparr>"
  by code_simp

lemma setFrequency_square_plan:
  "setFrequency squareTable (replicate 512 0) 1000 =
     Inr \<lparr> plan_Waveform = resize_min 256 squareTable,
           plan_Table = map (\<lambda>k. resize_min 256 squareTable ! (k div 2)) [0..<511] @ [0],
           useCycleStretch = False, Ph_step_Powof2 = 128, no_of_samples = 512,
           timer_period = 63, frequency_corrected = 15873 / 16, dds_array_length = 510,
           SetPeriodCmd_1_2 = [0, 63], SamplesCmd_1_2 = [2, 0] \<rparr>"
proof -
  have fclock: "cdiv 32000000 32 = 1000000"
    by (simp add: cdiv_def)
  have c: "cdiv 32000000 63 = 507936"
    by (simp add: cdiv_def)
  have t: "replicate (length (resize_min 512 (replicate 512 (0::8 word)))) (0::8 word) = replicate 512 0"
    by (simp add: resize_min_def)
  have e510: "(map (\<lambda>k. resize_min 256 squareTable ! (k div 2)) [0..<511] @ [0]) ! 510 = 0"
    by code_simp
  have e509: "(map (\<lambda>k. resize_min 256 squareTable ! (k div 2)) [0..<511] @ [0]) ! 509 = 0"
    by code_simp
  have same: "(map (\<lambda>k. resize_min 256 squareTable ! (k div 2)) [0..<511] @ [0])[510 := 0] =
             map (\<lambda>k. resize_min 256 squareTable ! (k div 2)) [0..<511] @ [0]"
    using e510 by (metis list_update_id)
  show ?thesis
    unfolding setFrequency_def Let_def t
    by (simp add: fclock get_phase_step_1000 square_fill c cpp_trunc_def cpp_round_def
        e510 e509 same msb_lsb_def cdiv_def)
qed

text \<open>
  C9 (the code at the failing input). The square master waveform has 230 entries, none of
  them 0. At 1000 Hz \<open>setFrequency\<close> extends it to 256 entries with zeros and the table
  fill copies them: the planner returns, the sample count is 512, and 52 of the 512
  bytes of the table (entry 460 among them) are 0, a byte that is not a value of the
  master waveform.
\<close>

theorem square_table_zero_bytes:
  "length squareTable = 230 \<and> 0 \<notin> set squareTable \<and>
   map_sum id (\<lambda>p. (no_of_samples p, length (plan_Table p),
                     length (filter (\<lambda>b. b \<notin> set squareTable) (plan_Table p)),
                     plan_Table p ! 460))
     (setFrequency squareTable (replicate 512 0) 1000) = Inr (512, 512, 52, 0)"
proof -
  have 1: "length squareTable = 230" by code_simp
  have 2: "0 \<notin> set squareTable" by code_simp
  have 3: "length (map (\<lambda>k. resize_min 256 squareTable ! (k div 2)) [0..<511] @ [0::8 word]) = 512"
    by simp
  have 4: "length (filter (\<lambda>b. b \<notin> set squareTable)
             (map (\<lambda>k. resize_min 256 squareTable ! (k div 2)) [0..<511] @ [0])) = 52"
    by code_simp
  have 5: "(map (\<lambda>k. resize_min 256 squareTable ! (k div 2)) [0..<511] @ [0]) ! 460 = 0"
    by code_simp
  from 1 2 3 4 5 show ?thesis
    by (simp add: setFrequency_square_plan)
qed

section \<open>Properties of the acquisition state machine\<close>

lemma upt_8: "[0..<8] = [0, 1, 2, 3, 4, 5, 6, 7]"
  by (simp add: upt_rec)

lemma start_accepted:
  "\<not> acquisitionInProgress s \<Longrightarrow>
   startOscilloscopeAcquisition mode len dual s =
     s\<lparr> acqState := Idle, acqDataLength := len, acqDualChannel := dual,
        ch1Raw := [], ch2Raw := [], bytesNeeded := 0, acqMode := mode,
        timeoutTimer := None, acquisitionInProgress := False,
        setupStep := 1, setupTimer := Some 50 \<rparr>"
  by (simp add: startOscilloscopeAcquisition_def Let_def resetAcquisitionState_def
      sendSetupSequence_def handleSetupStep_def wrap32_def)

lemma funpow_unfold:
  "(f ^^ 0) x = x" "(f ^^ 1) x = f x" "(f ^^ 2) x = f (f x)" "(f ^^ 3) x = f (f (f x))"
  "(f ^^ 4) x = f (f (f (f x)))" "(f ^^ 5) x = f (f (f (f (f x))))"
  "(f ^^ 6) x = f (f (f (f (f (f x)))))" "(f ^^ 7) x = f (f (f (f (f (f (f x))))))"
  by (simp_all add: eval_nat_numeral)

lemma setup_run_next:
  "setup_run (Suc 0) m l d s = setupTimer_timeout (setup_run 0 m l d s)"
  "setup_run 2 m l d s = setupTimer_timeout (setup_run (Suc 0) m l d s)"
  "setup_run 3 m l d s = setupTimer_timeout (setup_run 2 m l d s)"
  "setup_run 4 m l d s = setupTimer_timeout (setup_run 3 m l d s)"
  "setup_run 5 m l d s = setupTimer_timeout (setup_run 4 m l d s)"
  "setup_run 6 m l d s = setupTimer_timeout (setup_run 5 m l d s)"
  "setup_run 7 m l d s = setupTimer_timeout (setup_run 6 m l d s)"
  by (simp_all add: setup_run_def funpow_unfold)

lemma setupTimer_timeout_step:
  "setupStep s = 1 \<Longrightarrow> setupTimer_timeout s = s\<lparr> setupStep := 2, setupTimer := Some 50 \<rparr>"
  "setupStep s = 2 \<Longrightarrow> setupTimer_timeout s =
     s\<lparr> setupStep := 3, setupTimer := Some 50,
        written := written s @ [[0x54, word_of_int (trigSource s), 0x00]] \<rparr>"
  "setupStep s = 3 \<Longrightarrow> setupTimer_timeout s =
     s\<lparr> setupStep := 4, setupTimer := Some 50,
        written := written s @ [[0x50, word_of_int (trigPolarity s), 0x00]] \<rparr>"
  "setupStep s = 4 \<Longrightarrow> setupTimer_timeout s =
     s\<lparr> setupStep := 5, setupTimer := Some 50,
        written := written s @
          [[0x4C, word_of_int (trigLevel s div 256), word_of_int (trigLevel s)]] \<rparr>"
  "setupStep s = 5 \<Longrightarrow> setupTimer_timeout s =
     s\<lparr> setupStep := 6, setupTimer := Some 50,
        written := written s @ [[0x46, word_of_int (acqMode s), 0x00]] \<rparr>"
  "setupStep s = 6 \<Longrightarrow> setupTimer_timeout s =
     s\<lparr> setupStep := 7, setupTimer := Some 50,
        written := written s @ [[0x53, word_of_int (sampleRateIdx s), 0x00]] \<rparr>"
  "setupStep s = 7 \<Longrightarrow> setupTimer_timeout s =
     s\<lparr> setupTimer := None, written := written s @ [[0x43, 0x00, 0x00]],
        acqState := WaitingForDone, bytesNeeded := 1, timeoutTimer := Some 5000 \<rparr>"
  by (simp_all add: setupTimer_timeout_def handleSetupStep_def serial_write_def wrap32_def
      STATE_TIMEOUT_MS_def)

lemma setup_run_states:
  assumes "\<not> acquisitionInProgress s"
  shows "setup_run 0 mode len dual s =
           s\<lparr> acqState := Idle, acqDataLength := len, acqDualChannel := dual,
              ch1Raw := [], ch2Raw := [], bytesNeeded := 0, acqMode := mode,
              timeoutTimer := None, acquisitionInProgress := False,
              setupStep := 1, setupTimer := Some 50 \<rparr>"
    and "setup_run (Suc 0) mode len dual s = (setup_run 0 mode len dual s)\<lparr> setupStep := 2 \<rparr>"
    and "setup_run 2 mode len dual s =
           (setup_run 0 mode len dual s)\<lparr> setupStep := 3,
               written := written s @ [[0x54, word_of_int (trigSource s), 0x00]] \<rparr>"
    and "setup_run 3 mode len dual s =
           (setup_run 0 mode len dual s)\<lparr> setupStep := 4,
               written := written s @ [[0x54, word_of_int (trigSource s), 0x00],
                 [0x50, word_of_int (trigPolarity s), 0x00]] \<rparr>"
    and "setup_run 4 mode len dual s =
           (setup_run 0 mode len dual s)\<lparr> setupStep := 5,
               written := written s @ [[0x54, word_of_int (trigSource s), 0x00],
                 [0x50, word_of_int (trigPolarity s), 0x00],
                 [0x4C, word_of_int (trigLevel s div 256), word_of_int (trigLevel s)]] \<rparr>"
    and "setup_run 5 mode len dual s =
           (setup_run 0 mode len dual s)\<lparr> setupStep := 6,
               written := written s @ [[0x54, word_of_int (trigSource s), 0x00],
                 [0x50, word_of_int (trigPolarity s), 0x00],
                 [0x4C, word_of_int (trigLevel s div 256), word_of_int (trigLevel s)],
                 [0x46, word_of_int mode, 0x00]] \<rparr>"
    and "setup_run 6 mode len dual s =
           (setup_run 0 mode len dual s)\<lparr> setupStep := 7,
               written := written s @ [[0x54, word_of_int (trigSource s), 0x00],
                 [0x50, word_of_int (trigPolarity s), 0x00],
                 [0x4C, word_of_int (trigLevel s div 256), word_of_int (trigLevel s)],
                 [0x46, word_of_int mode, 0x00],
                 [0x53, word_of_int (sampleRateIdx s), 0x00]] \<rparr>"
    and "setup_run 7 mode len dual s =
           (setup_run 0 mode len dual s)\<lparr> setupStep := 7, setupTimer := None,
               written := written s @ [[0x54, word_of_int (trigSource s), 0x00],
                 [0x50, word_of_int (trigPolarity s), 0x00],
                 [0x4C, word_of_int (trigLevel s div 256), word_of_int (trigLevel s)],
                 [0x46, word_of_int mode, 0x00],
                 [0x53, word_of_int (sampleRateIdx s), 0x00],
                 [0x43, 0x00, 0x00]],
               acqState := WaitingForDone, bytesNeeded := 1, timeoutTimer := Some 5000 \<rparr>"
proof -
  show r0: "setup_run 0 mode len dual s =
           s\<lparr> acqState := Idle, acqDataLength := len, acqDualChannel := dual,
              ch1Raw := [], ch2Raw := [], bytesNeeded := 0, acqMode := mode,
              timeoutTimer := None, acquisitionInProgress := False,
              setupStep := 1, setupTimer := Some 50 \<rparr>"
    using assms by (simp add: setup_run_def start_accepted)
  show r1: "setup_run (Suc 0) mode len dual s = (setup_run 0 mode len dual s)\<lparr> setupStep := 2 \<rparr>"
    by (subst setup_run_next(1)) (simp add:  setupTimer_timeout_step(1) r0)
  show r2: "setup_run 2 mode len dual s =
           (setup_run 0 mode len dual s)\<lparr> setupStep := 3,
               written := written s @ [[0x54, word_of_int (trigSource s), 0x00]] \<rparr>"
    by (subst setup_run_next(2)) (simp add: r1 setupTimer_timeout_step(2) r0)
  show r3: "setup_run 3 mode len dual s =
           (setup_run 0 mode len dual s)\<lparr> setupStep := 4,
               written := written s @ [[0x54, word_of_int (trigSource s), 0x00],
                 [0x50, word_of_int (trigPolarity s), 0x00]] \<rparr>"
    by (subst setup_run_next(3)) (simp add: r2 setupTimer_timeout_step(3) r0)
  show r4: "setup_run 4 mode len dual s =
           (setup_run 0 mode len dual s)\<lparr> setupStep := 5,
               written := written s @ [[0x54, word_of_int (trigSource s), 0x00],
                 [0x50, word_of_int (trigPolarity s), 0x00],
                 [0x4C, word_of_int (trigLevel s div 256), word_of_int (trigLevel s)]] \<rparr>"
    by (subst setup_run_next(4)) (simp add: r3 setupTimer_timeout_step(4) r0)
  show r5: "setup_run 5 mode len dual s =
           (setup_run 0 mode len dual s)\<lparr> setupStep := 6,
               written := written s @ [[0x54, word_of_int (trigSource s), 0x00],
                 [0x50, word_of_int (trigPolarity s), 0x00],
                 [0x4C, word_of_int (trigLevel s div 256), word_of_int (trigLevel s)],
                 [0x46, word_of_int mode, 0x00]] \<rparr>"
    by (subst setup_run_next(5)) (simp add: r4 setupTimer_timeout_step(5) r0)
  show r6: "setup_run 6 mode len dual s =
           (setup_run 0 mode len dual s)\<lparr> setupStep := 7,
               written := written s @ [[0x54, word_of_int (trigSource s), 0x00],
                 [0x50, word_of_int (trigPolarity s), 0x00],
                 [0x4C, word_of_int (trigLevel s div 256), word_of_int (trigLevel s)],
                 [0x46, word_of_int mode, 0x00],
                 [0x53, word_of_int (sampleRateIdx s), 0x00]] \<rparr>"
    by (subst setup_run_next(6)) (simp add: r5 setupTimer_timeout_step(6) r0)
  show r7: "setup_run 7 mode len dual s =
           (setup_run 0 mode len dual s)\<lparr> setupStep := 7, setupTimer := None,
               written := written s @ [[0x54, word_of_int (trigSource s), 0x00],
                 [0x50, word_of_int (trigPolarity s), 0x00],
                 [0x4C, word_of_int (trigLevel s div 256), word_of_int (trigLevel s)],
                 [0x46, word_of_int mode, 0x00],
                 [0x53, word_of_int (sampleRateIdx s), 0x00],
                 [0x43, 0x00, 0x00]],
               acqState := WaitingForDone, bytesNeeded := 1, timeoutTimer := Some 5000 \<rparr>"
    by (subst setup_run_next(7)) (simp add: r6 setupTimer_timeout_step(7) r0)
qed

text \<open>
  C7 (as the code has it). A start call that is accepted runs step 0 at once and the
  steps 1 to 7 on seven expiries of the setup timer, each of the first seven steps
  re-arming it with 50 ms. Steps 0 and 1 (the two offset commands, disabled in the
  source) write nothing; steps 2 to 6 write the frames trigger-source,
  trigger-polarity, trigger-level, mode and sample-rate; step 7 writes the capture
  command, enters \<open>WaitingForDone\<close> expecting one byte and arms the 5000 ms state timeout.
\<close>

theorem setup_sequence:
  assumes "\<not> acquisitionInProgress s"
  shows
    "(let T = [0x54, word_of_int (trigSource s), 0x00];
          P = [0x50, word_of_int (trigPolarity s), 0x00];
          L = [0x4C, word_of_int (trigLevel s div 256), word_of_int (trigLevel s)];
          F = [0x46, word_of_int mode, 0x00];
          S = [0x53, word_of_int (sampleRateIdx s), 0x00];
          C = [0x43, 0x00, 0x00]
      in map (\<lambda>k. written (setup_run k mode len dual s)) [0..<8] =
           map (\<lambda>fs. written s @ fs)
             [[], [], [T], [T, P], [T, P, L], [T, P, L, F], [T, P, L, F, S],
              [T, P, L, F, S, C]]) \<and>
     map (\<lambda>k. setupTimer (setup_run k mode len dual s)) [0..<8] =
       [Some 50, Some 50, Some 50, Some 50, Some 50, Some 50, Some 50, None] \<and>
     map (\<lambda>k. acqState (setup_run k mode len dual s)) [0..<8] =
       [Idle, Idle, Idle, Idle, Idle, Idle, Idle, WaitingForDone] \<and>
     map (\<lambda>k. timeoutTimer (setup_run k mode len dual s)) [0..<8] =
       [None, None, None, None, None, None, None, Some 5000] \<and>
     bytesNeeded (setup_run 7 mode len dual s) = 1"
  unfolding upt_8 Let_def
  by (simp add: setup_run_states [OF assms])

theorem setup_sequence_witness:
  "\<not> acquisitionInProgress new_SerialHandler \<and>
   map (\<lambda>k. written (setup_run k 1 200 True new_SerialHandler)) [0..<8] =
     [[], [], [[0x54, 0, 0]], [[0x54, 0, 0], [0x50, 0, 0]],
      [[0x54, 0, 0], [0x50, 0, 0], [0x4C, 0, 0]],
      [[0x54, 0, 0], [0x50, 0, 0], [0x4C, 0, 0], [0x46, 1, 0]],
      [[0x54, 0, 0], [0x50, 0, 0], [0x4C, 0, 0], [0x46, 1, 0], [0x53, 3, 0]],
      [[0x54, 0, 0], [0x50, 0, 0], [0x4C, 0, 0], [0x46, 1, 0], [0x53, 3, 0], [0x43, 0, 0]]]"
proof -
  have h: "\<not> acquisitionInProgress new_SerialHandler"
    by (simp add: new_SerialHandler_def)
  from setup_sequence [OF h, of 1 200 True] h show ?thesis
    by (simp add: Let_def new_SerialHandler_def)
qed

theorem setup_sequence_counterexample:
  "written (setup_run 7 1 200 True new_SerialHandler) =
     [[0x54, 0, 0], [0x50, 0, 0], [0x4C, 0, 0], [0x46, 1, 0], [0x53, 3, 0], [0x43, 0, 0]]"
proof -
  have h: "\<not> acquisitionInProgress new_SerialHandler"
    by (simp add: new_SerialHandler_def)
  show ?thesis
    unfolding setup_run_states(8) [OF h] setup_run_states(1) [OF h]
    by (simp add: new_SerialHandler_def)
qed


lemma handleReadyRead_ack:
  assumes "acqState s = WaitingForDone" "bytesNeeded s = 1" "rx_buffer s \<noteq> []"
  shows "acqDualChannel s \<Longrightarrow>
           handleReadyRead s =
             s\<lparr> ch1Raw := [], ch2Raw := [], rx_buffer := [], bytesNeeded := 200,
                acqState := WaitingForCh1, written := written s @ [[0x44, 0x01, 0x00]],
                timeoutTimer := Some 5000 \<rparr>"
    and "\<not> acqDualChannel s \<Longrightarrow> acqMode s = 2 \<Longrightarrow>
           handleReadyRead s =
             s\<lparr> ch1Raw := [], ch2Raw := [], rx_buffer := [], bytesNeeded := 400,
                acqState := WaitingForCh1, written := written s @ [[0x44, 0x03, 0x00]],
                timeoutTimer := Some 5000 \<rparr>"
    and "\<not> acqDualChannel s \<Longrightarrow> acqMode s = 3 \<Longrightarrow>
           handleReadyRead s =
             s\<lparr> ch1Raw := [], ch2Raw := [], rx_buffer := [], bytesNeeded := 400,
                acqState := WaitingForCh2, written := written s @ [[0x44, 0x04, 0x00]],
                timeoutTimer := Some 5000 \<rparr>"
proof -
  have len: "\<not> int (length (rx_buffer s)) < 1" "0 < length (rx_buffer s)"
    using assms(3) by (cases "rx_buffer s"; simp)+
  show "acqDualChannel s \<Longrightarrow>
           handleReadyRead s =
             s\<lparr> ch1Raw := [], ch2Raw := [], rx_buffer := [], bytesNeeded := 200,
                acqState := WaitingForCh1, written := written s @ [[0x44, 0x01, 0x00]],
                timeoutTimer := Some 5000 \<rparr>"
    using assms(1,2) len
    by (simp add: handleReadyRead_def serial_write_def STATE_TIMEOUT_MS_def)
  show "\<not> acqDualChannel s \<Longrightarrow> acqMode s = 2 \<Longrightarrow>
           handleReadyRead s =
             s\<lparr> ch1Raw := [], ch2Raw := [], rx_buffer := [], bytesNeeded := 400,
                acqState := WaitingForCh1, written := written s @ [[0x44, 0x03, 0x00]],
                timeoutTimer := Some 5000 \<rparr>"
    using assms(1,2) len
    by (simp add: handleReadyRead_def serial_write_def STATE_TIMEOUT_MS_def)
  show "\<not> acqDualChannel s \<Longrightarrow> acqMode s = 3 \<Longrightarrow>
           handleReadyRead s =
             s\<lparr> ch1Raw := [], ch2Raw := [], rx_buffer := [], bytesNeeded := 400,
                acqState := WaitingForCh2, written := written s @ [[0x44, 0x04, 0x00]],
                timeoutTimer := Some 5000 \<rparr>"
    using assms(1,2) len
    by (simp add: handleReadyRead_def serial_write_def STATE_TIMEOUT_MS_def)
qed

lemma handleReadyRead_ch1_dual:
  assumes "acqState s = WaitingForCh1" "bytesNeeded s = 200" "200 \<le> length (rx_buffer s)"
    "acqDualChannel s"
  shows "handleReadyRead s =
           s\<lparr> ch1Raw := take 200 (rx_buffer s), rx_buffer := drop 200 (rx_buffer s),
              written := written s @ [[0x44, 0x02, 0x00]], bytesNeeded := 200,
              acqState := WaitingForCh2, timeoutTimer := Some 5000 \<rparr>"
proof -
  have len: "\<not> int (length (rx_buffer s)) < 200" "0 < length (rx_buffer s)"
    using assms(3) by auto
  show ?thesis
    using assms(1,2,4) len
    by (simp add: handleReadyRead_def serial_write_def STATE_TIMEOUT_MS_def Let_def)
qed

text \<open>
  C1 (as the code has it). After the one-byte acknowledgment the handler sends
  \<open>D,1,0\<close> and expects 200 bytes when the dual-channel flag is set; otherwise it sends
  \<open>D,3,0\<close> and expects 400 bytes in mode 2 (CH1 only), and \<open>D,4,0\<close> and expects 400 bytes
  in mode 3 (CH2 only). In dual mode, once the 200 bytes of CH1 are read, it sends
  \<open>D,2,0\<close> and expects 200 further bytes for CH2.
\<close>

theorem read_commands:
  "(acqState s = WaitingForDone \<and> bytesNeeded s = 1 \<and> rx_buffer s \<noteq> [] \<and> acqDualChannel s \<longrightarrow>
      written (handleReadyRead s) = written s @ [[0x44, 0x01, 0x00]] \<and>
      bytesNeeded (handleReadyRead s) = 200 \<and> acqState (handleReadyRead s) = WaitingForCh1) \<and>
   (acqState s = WaitingForDone \<and> bytesNeeded s = 1 \<and> rx_buffer s \<noteq> [] \<and>
    \<not> acqDualChannel s \<and> acqMode s = 2 \<longrightarrow>
      written (handleReadyRead s) = written s @ [[0x44, 0x03, 0x00]] \<and>
      bytesNeeded (handleReadyRead s) = 400 \<and> acqState (handleReadyRead s) = WaitingForCh1) \<and>
   (acqState s = WaitingForDone \<and> bytesNeeded s = 1 \<and> rx_buffer s \<noteq> [] \<and>
    \<not> acqDualChannel s \<and> acqMode s = 3 \<longrightarrow>
      written (handleReadyRead s) = written s @ [[0x44, 0x04, 0x00]] \<and>
      bytesNeeded (handleReadyRead s) = 400 \<and> acqState (handleReadyRead s) = WaitingForCh2) \<and>
   (acqState s = WaitingForCh1 \<and> bytesNeeded s = 200 \<and> 200 \<le> length (rx_buffer s) \<and>
    acqDualChannel s \<longrightarrow>
      ch1Raw (handleReadyRead s) = take 200 (rx_buffer s) \<and>
      written (handleReadyRead s) = written s @ [[0x44, 0x02, 0x00]] \<and>
      bytesNeeded (handleReadyRead s) = 200 \<and> acqState (handleReadyRead s) = WaitingForCh2)"
proof (intro conjI impI)
  assume "acqState s = WaitingForDone \<and> bytesNeeded s = 1 \<and> rx_buffer s \<noteq> [] \<and> acqDualChannel s"
  then have "handleReadyRead s =
             s\<lparr> ch1Raw := [], ch2Raw := [], rx_buffer := [], bytesNeeded := 200,
                acqState := WaitingForCh1, written := written s @ [[0x44, 0x01, 0x00]],
                timeoutTimer := Some 5000 \<rparr>"
    by (intro handleReadyRead_ack(1)) simp_all
  then show "written (handleReadyRead s) = written s @ [[0x44, 0x01, 0x00]]"
    "bytesNeeded (handleReadyRead s) = 200" "acqState (handleReadyRead s) = WaitingForCh1"
    by simp_all
next
  assume "acqState s = WaitingForDone \<and> bytesNeeded s = 1 \<and> rx_buffer s \<noteq> [] \<and>
    \<not> acqDualChannel s \<and> acqMode s = 2"
  then have "handleReadyRead s =
             s\<lparr> ch1Raw := [], ch2Raw := [], rx_buffer := [], bytesNeeded := 400,
                acqState := WaitingForCh1, written := written s @ [[0x44, 0x03, 0x00]],
                timeoutTimer := Some 5000 \<rparr>"
    by (intro handleReadyRead_ack(2)) simp_all
  then show "written (handleReadyRead s) = written s @ [[0x44, 0x03, 0x00]]"
    "bytesNeeded (handleReadyRead s) = 400" "acqState (handleReadyRead s) = WaitingForCh1"
    by simp_all
next
  assume "acqState s = WaitingForDone \<and> bytesNeeded s = 1 \<and> rx_buffer s \<noteq> [] \<and>
    \<not> acqDualChannel s \<and> acqMode s = 3"
  then have "handleReadyRead s =
             s\<lparr> ch1Raw := [], ch2Raw := [], rx_buffer := [], bytesNeeded := 400,
                acqState := WaitingForCh2, written := written s @ [[0x44, 0x04, 0x00]],
                timeoutTimer := Some 5000 \<rparr>"
    by (intro handleReadyRead_ack(3)) simp_all
  then show "written (handleReadyRead s) = written s @ [[0x44, 0x04, 0x00]]"
    "bytesNeeded (handleReadyRead s) = 400" "acqState (handleReadyRead s) = WaitingForCh2"
    by simp_all
next
  assume "acqState s = WaitingForCh1 \<and> bytesNeeded s = 200 \<and> 200 \<le> length (rx_buffer s) \<and>
    acqDualChannel s"
  then have "handleReadyRead s =
           s\<lparr> ch1Raw := take 200 (rx_buffer s), rx_buffer := drop 200 (rx_buffer s),
              written := written s @ [[0x44, 0x02, 0x00]], bytesNeeded := 200,
              acqState := WaitingForCh2, timeoutTimer := Some 5000 \<rparr>"
    by (intro handleReadyRead_ch1_dual) simp_all
  then show "ch1Raw (handleReadyRead s) = take 200 (rx_buffer s)"
    "written (handleReadyRead s) = written s @ [[0x44, 0x02, 0x00]]"
    "bytesNeeded (handleReadyRead s) = 200" "acqState (handleReadyRead s) = WaitingForCh2"
    by simp_all
qed


theorem read_commands_witness:
  "written (handleReadyRead (new_SerialHandler\<lparr> acqState := WaitingForDone, bytesNeeded := 1,
      rx_buffer := [0x06], acqDualChannel := True \<rparr>)) = [[0x44, 0x01, 0x00]] \<and>
   written (handleReadyRead (new_SerialHandler\<lparr> acqState := WaitingForDone, bytesNeeded := 1,
      rx_buffer := [0x06], acqDualChannel := False, acqMode := 2 \<rparr>)) = [[0x44, 0x03, 0x00]] \<and>
   written (handleReadyRead (new_SerialHandler\<lparr> acqState := WaitingForDone, bytesNeeded := 1,
      rx_buffer := [0x06], acqDualChannel := False, acqMode := 3 \<rparr>)) = [[0x44, 0x04, 0x00]] \<and>
   written (handleReadyRead (new_SerialHandler\<lparr> acqState := WaitingForCh1, bytesNeeded := 200,
      rx_buffer := replicate 200 0x80, acqDualChannel := True \<rparr>)) = [[0x44, 0x02, 0x00]]"
proof -
  have 1: "written (handleReadyRead (new_SerialHandler\<lparr> acqState := WaitingForDone,
      bytesNeeded := 1, rx_buffer := [0x06], acqDualChannel := True \<rparr>)) = [[0x44, 0x01, 0x00]]"
    using read_commands [of "new_SerialHandler\<lparr> acqState := WaitingForDone, bytesNeeded := 1,
      rx_buffer := [0x06], acqDualChannel := True \<rparr>"]
    by (simp add: new_SerialHandler_def)
  have 2: "written (handleReadyRead (new_SerialHandler\<lparr> acqState := WaitingForDone,
      bytesNeeded := 1, rx_buffer := [0x06], acqDualChannel := False, acqMode := 2 \<rparr>)) =
      [[0x44, 0x03, 0x00]]"
    using read_commands [of "new_SerialHandler\<lparr> acqState := WaitingForDone, bytesNeeded := 1,
      rx_buffer := [0x06], acqDualChannel := False, acqMode := 2 \<rparr>"]
    by (simp add: new_SerialHandler_def)
  have 3: "written (handleReadyRead (new_SerialHandler\<lparr> acqState := WaitingForDone,
      bytesNeeded := 1, rx_buffer := [0x06], acqDualChannel := False, acqMode := 3 \<rparr>)) =
      [[0x44, 0x04, 0x00]]"
    using read_commands [of "new_SerialHandler\<lparr> acqState := WaitingForDone, bytesNeeded := 1,
      rx_buffer := [0x06], acqDualChannel := False, acqMode := 3 \<rparr>"]
    by (simp add: new_SerialHandler_def)
  have 4: "written (handleReadyRead (new_SerialHandler\<lparr> acqState := WaitingForCh1,
      bytesNeeded := 200, rx_buffer := replicate 200 0x80, acqDualChannel := True \<rparr>)) =
      [[0x44, 0x02, 0x00]]"
    using read_commands [of "new_SerialHandler\<lparr> acqState := WaitingForCh1, bytesNeeded := 200,
      rx_buffer := replicate 200 0x80, acqDualChannel := True \<rparr>"]
    by (simp add: new_SerialHandler_def)
  from 1 2 3 4 show ?thesis by blast
qed

lemma receive_ack_ch1_only:
  "receive [0x06] (setup_run 7 2 400 False new_SerialHandler) =
     (setup_run 7 2 400 False new_SerialHandler)
       \<lparr> ch1Raw := [], ch2Raw := [], rx_buffer := [], bytesNeeded := 400,
         acqState := WaitingForCh1,
         written := written (setup_run 7 2 400 False new_SerialHandler) @ [[0x44, 0x03, 0x00]],
         timeoutTimer := Some 5000 \<rparr>"
proof -
  have h: "\<not> acquisitionInProgress new_SerialHandler"
    by (simp add: new_SerialHandler_def)
  note r = setup_run_states(8) [OF h, of 2 400 False] setup_run_states(1) [OF h, of 2 400 False]
  have "handleReadyRead ((setup_run 7 2 400 False new_SerialHandler)\<lparr> rx_buffer := [0x06] \<rparr>) =
     (setup_run 7 2 400 False new_SerialHandler)\<lparr> rx_buffer := [0x06] \<rparr>
       \<lparr> ch1Raw := [], ch2Raw := [], rx_buffer := [], bytesNeeded := 400,
         acqState := WaitingForCh1,
         written := written ((setup_run 7 2 400 False new_SerialHandler)\<lparr> rx_buffer := [0x06] \<rparr>)
            @ [[0x44, 0x03, 0x00]],
         timeoutTimer := Some 5000 \<rparr>"
    by (rule handleReadyRead_ack(2)) (simp_all add: r)
  moreover have "rx_buffer (setup_run 7 2 400 False new_SerialHandler) = []"
    unfolding r by (simp add: new_SerialHandler_def)
  ultimately show ?thesis
    by (simp add: receive_def)
qed

lemma receive_ch1_dual:
  "written (receive (replicate 200 0x80) (receive [0x06] (setup_run 7 1 200 True new_SerialHandler))) =
     written (setup_run 7 1 200 True new_SerialHandler) @ [[0x44, 0x01, 0x00], [0x44, 0x02, 0x00]]"
proof -
  have h: "\<not> acquisitionInProgress new_SerialHandler"
    by (simp add: new_SerialHandler_def)
  note r = setup_run_states(8) [OF h, of 1 200 True] setup_run_states(1) [OF h, of 1 200 True]
  define s7 where "s7 = setup_run 7 1 200 True new_SerialHandler"
  have s7: "acqState s7 = WaitingForDone" "bytesNeeded s7 = 1" "rx_buffer s7 = []"
    "acqDualChannel s7"
    unfolding s7_def r by (simp_all add: new_SerialHandler_def)
  have a: "receive [0x06] s7 =
             s7\<lparr> ch1Raw := [], ch2Raw := [], rx_buffer := [], bytesNeeded := 200,
                acqState := WaitingForCh1, written := written s7 @ [[0x44, 0x01, 0x00]],
                timeoutTimer := Some 5000 \<rparr>"
    using handleReadyRead_ack(1) [of "s7\<lparr> rx_buffer := [0x06] \<rparr>"] s7
    by (simp add: receive_def)
  define s8 where "s8 = (receive [0x06] s7)\<lparr> rx_buffer :=
      rx_buffer (receive [0x06] s7) @ replicate 200 0x80 \<rparr>"
  have s8: "acqState s8 = WaitingForCh1" "bytesNeeded s8 = 200"
    "200 \<le> length (rx_buffer s8)" "acqDualChannel s8"
    "written s8 = written s7 @ [[0x44, 0x01, 0x00]]"
    using s7 by (simp_all add: s8_def a)
  have "written (handleReadyRead s8) = written s8 @ [[0x44, 0x02, 0x00]]"
    by (simp add: handleReadyRead_ch1_dual [OF s8(1-4)])
  then have b: "written (receive (replicate 200 0x80) (receive [0x06] s7)) =
             written s7 @ [[0x44, 0x01, 0x00], [0x44, 0x02, 0x00]]"
    by (simp add: receive_def [of "replicate 200 0x80"] s8_def [symmetric] s8(5))
  then show ?thesis by (simp add: s7_def)
qed

theorem read_commands_counterexample:
  "last (written (receive [0x06] (setup_run 7 2 400 False new_SerialHandler))) =
     [0x44, 0x03, 0x00] \<and>
   last (written (receive (replicate 200 0x80)
           (receive [0x06] (setup_run 7 1 200 True new_SerialHandler)))) = [0x44, 0x02, 0x00]"
  by (simp add: receive_ack_ch1_only receive_ch1_dual)

text \<open>
  No operation of the handler leaves \<open>acquisitionInProgress\<close> set: from the fresh
  handler on, the test that guards \<open>startOscilloscopeAcquisition\<close> always finds it false.
\<close>

lemma flag_stays_clear:
  assumes "\<not> acquisitionInProgress s"
  shows "\<not> acquisitionInProgress (startOscilloscopeAcquisition mode len dual s)"
    and "\<not> acquisitionInProgress (setupTimer_timeout s)"
    and "\<not> acquisitionInProgress (timeoutTimer_timeout s)"
    and "\<not> acquisitionInProgress (receive bytes s)"
proof -
  show "\<not> acquisitionInProgress (startOscilloscopeAcquisition mode len dual s)"
    using assms by (simp add: start_accepted)
  show "\<not> acquisitionInProgress (setupTimer_timeout s)"
    using assms
    by (simp add: setupTimer_timeout_def handleSetupStep_def serial_write_def Let_def)
  show "\<not> acquisitionInProgress (timeoutTimer_timeout s)"
    by (simp add: timeoutTimer_timeout_def resetAcquisitionState_def)
  show "\<not> acquisitionInProgress (receive bytes s)"
    using assms
    by (simp add: receive_def handleReadyRead_def serial_write_def resetAcquisitionState_def
        Let_def split: prod.splits)
qed

text \<open>
  C8 (the code at the failing input). A fresh handler is started and its setup runs to
  the capture command: it is in \<open>WaitingForDone\<close> with the state timeout armed, and
  \<open>acquisitionInProgress\<close> is already false again, because \<open>resetAcquisitionState\<close>
  clears it right after the start has set it. A second start is therefore not rejected:
  it puts the handler back to \<open>Idle\<close>, stops the state timeout, and its setup sends six
  further frames.
\<close>

theorem second_start_not_rejected:
  "acqState (setup_run 7 1 200 True new_SerialHandler) = WaitingForDone \<and>
   timeoutTimer (setup_run 7 1 200 True new_SerialHandler) = Some 5000 \<and>
   acquisitionInProgress (setup_run 7 1 200 True new_SerialHandler) = False \<and>
   acqState (startOscilloscopeAcquisition 1 200 True
     (setup_run 7 1 200 True new_SerialHandler)) = Idle \<and>
   timeoutTimer (startOscilloscopeAcquisition 1 200 True
     (setup_run 7 1 200 True new_SerialHandler)) = None \<and>
   written (setup_run 7 1 200 True (setup_run 7 1 200 True new_SerialHandler)) =
     written (setup_run 7 1 200 True new_SerialHandler) @
       [[0x54, 0, 0], [0x50, 0, 0], [0x4C, 0, 0], [0x46, 1, 0], [0x53, 3, 0], [0x43, 0, 0]]"
proof -
  have h: "\<not> acquisitionInProgress new_SerialHandler"
    by (simp add: new_SerialHandler_def)
  note r = setup_run_states(8) [OF h, of 1 200 True] setup_run_states(1) [OF h, of 1 200 True]
  define s7 where "s7 = setup_run 7 1 200 True new_SerialHandler"
  have s7: "acqState s7 = WaitingForDone" "timeoutTimer s7 = Some 5000"
    "acquisitionInProgress s7 = False" "trigSource s7 = 0" "trigPolarity s7 = 0"
    "trigLevel s7 = 0" "sampleRateIdx s7 = 3"
    unfolding s7_def r by (simp_all add: new_SerialHandler_def)
  have h7: "\<not> acquisitionInProgress s7" using s7(3) by simp
  have again: "acqState (startOscilloscopeAcquisition 1 200 True s7) = Idle"
    "timeoutTimer (startOscilloscopeAcquisition 1 200 True s7) = None"
    by (simp_all add: start_accepted [OF h7])
  have w: "written (setup_run 7 1 200 True s7) =
     written s7 @
       [[0x54, 0, 0], [0x50, 0, 0], [0x4C, 0, 0], [0x46, 1, 0], [0x53, 3, 0], [0x43, 0, 0]]"
    by (simp add: setup_run_states(8) [OF h7] setup_run_states(1) [OF h7] s7)
  from s7(1,2,3) again w show ?thesis
    by (simp add: s7_def)
qed

section \<open>Properties of the calibration\<close>

text \<open>
  C4. For every raw byte, every gain of the programmable amplifier and every UI offset,
  the voltage computed for a sample of either channel is the calibration equation with
  \<open>OC = 0\<close>; the byte is read as a value in \<open>[0, 255]\<close>, and a frame is converted sample
  by sample.
\<close>

theorem calibrated_voltage:
  assumes "g \<in> {1, 2, 4, 8, 16, 32}"
  shows "unat adc \<le> 255 \<and>
         ch1_voltage adc g ui_offset = spec_voltage 0 (unat adc) g ui_offset \<and>
         ch2_voltage adc g ui_offset = spec_voltage 0 (unat adc) g ui_offset \<and>
         convert_ch1 frame g ui_offset = map (\<lambda>b. spec_voltage 0 (unat b) g ui_offset) frame \<and>
         convert_ch2 frame g ui_offset = map (\<lambda>b. spec_voltage 0 (unat b) g ui_offset) frame"
proof -
  have u: "unat adc \<le> 255"
    using unsigned_less [of adc, where ?'a = nat] by simp
  have g: "g \<noteq> 0" using assms by auto
  have 1: "ch1_voltage b g ui_offset = spec_voltage 0 (unat b) g ui_offset" for b
    using g by (simp add: ch1_voltage_def spec_voltage_def Let_def field_simps)
  have 2: "ch2_voltage b g ui_offset = spec_voltage 0 (unat b) g ui_offset" for b
    using g by (simp add: ch2_voltage_def spec_voltage_def Let_def field_simps)
  from u 1 2 show ?thesis
    by (simp add: convert_ch1_def convert_ch2_def)
qed

theorem calibrated_voltage_witness:
  "(1::real) \<in> {1, 2, 4, 8, 16, 32} \<and>
   ch1_voltage 128 1 0 = 22 / 100 \<and> ch2_voltage 128 1 0 = 22 / 100 \<and>
   spec_voltage 0 128 1 0 = 22 / 100"
proof -
  have g: "(1::real) \<in> {1, 2, 4, 8, 16, 32}" by simp
  have s: "spec_voltage 0 128 1 0 = 22 / 100"
    by (simp add: spec_voltage_def)
  from calibrated_voltage [OF g, of 128 0] g s show ?thesis by simp
qed


section \<open>Properties of the trigger stage\<close>









section \<open>Properties of the Bode analysis\<close>

lemma findLocalExtrema_short: "length data \<le> 2 \<Longrightarrow> findLocalExtrema data = (0, 0)"
  by (simp add: findLocalExtrema_def Let_def)

lemma bode_invalid_iff:
  "invalid (bode_point_of i out) \<longleftrightarrow>
     spec_amplitude i \<le> 1 / 10 ^ 9 \<or> spec_amplitude out \<le> 1 / 10 ^ 9"
proof (cases "min (length i) (length out) \<le> 20")
  case True
  then have "length (drop 20 i) \<le> 2 \<or> length (drop 20 out) \<le> 2" by auto
  then have "spec_amplitude i = 0 \<or> spec_amplitude out = 0"
    by (auto simp: spec_amplitude_def findLocalExtrema_short)
  with True show ?thesis
    by (auto simp: bode_point_of_def Let_def)
next
  case False
  then show ?thesis
    by (simp add: bode_point_of_def spec_amplitude_def Let_def split: prod.splits)
qed

lemma bode_valid_magnitude:
  assumes "\<not> invalid (bode_point_of i out)"
  shows "magnitude (bode_point_of i out) =
           Finite (20 * log 10 (spec_amplitude out / spec_amplitude i))"
proof -
  obtain ia ib where i: "findLocalExtrema (drop 20 i) = (ia, ib)"
    by (cases "findLocalExtrema (drop 20 i)")
  obtain oa ob where out: "findLocalExtrema (drop 20 out) = (oa, ob)"
    by (cases "findLocalExtrema (drop 20 out)")
  have amp: "spec_amplitude i = (ia - ib) / 2" "spec_amplitude out = (oa - ob) / 2"
    by (simp_all add: spec_amplitude_def i out)
  from assms have N: "\<not> min (length i) (length out) \<le> 20"
    by (auto simp: bode_point_of_def Let_def)
  from assms have a: "spec_amplitude i > 1 / 10 ^ 9" "spec_amplitude out > 1 / 10 ^ 9"
    by (simp_all add: bode_invalid_iff not_le)
  then have pos: "spec_amplitude out / spec_amplitude i > 0" by simp
  have "magnitude (bode_point_of i out) =
          times20 (cpp_log10 (spec_amplitude out / spec_amplitude i))"
    using N a(1) unfolding bode_point_of_def Let_def i out amp by simp
  with pos show ?thesis
    by (simp add: cpp_log10_def times20_def)
qed

text \<open>
  C6 (the code at the failing input). Both frames have 200 samples. The input waveform
  has amplitude 1 after its 20 settling samples; the output waveform is flat (0.22 V,
  the voltage of the centred ADC code at gain 1), so it has no local extremum and its
  amplitude is 0. The point is marked invalid, and the magnitude recorded for it is
  \<open>20 * log10(0 / 1)\<close>, minus infinity, not 0.0 dB: the guard of the magnitude tests the
  input amplitude only.
\<close>

theorem bode_flat_output:
  "length sweep_input_wave = 200 \<and> length sweep_flat_output = 200 \<and>
   spec_amplitude sweep_input_wave = 1 \<and> spec_amplitude sweep_flat_output = 0 \<and>
   bode_point_of sweep_input_wave sweep_flat_output =
     \<lparr> magnitude = MinusInfinity, invalid = True \<rparr> \<and>
   plotBodePlot [1000] [sweep_input_wave] [sweep_flat_output] =
     Some [\<lparr> magnitude = MinusInfinity, invalid = True \<rparr>]"
proof -
  have i: "findLocalExtrema (drop 20 sweep_input_wave) = (1, -1)"
    by code_simp
  have out: "findLocalExtrema (drop 20 sweep_flat_output) = (0, 0)"
    by code_simp
  have len: "length sweep_input_wave = 200" "length sweep_flat_output = 200"
    by code_simp+
  have p: "bode_point_of sweep_input_wave sweep_flat_output =
     \<lparr> magnitude = MinusInfinity, invalid = True \<rparr>"
    unfolding bode_point_of_def Let_def i out len
    by (simp add: cpp_log10_def times20_def)
  have "plotBodePlot [1000] [sweep_input_wave] [sweep_flat_output] =
     Some [\<lparr> magnitude = MinusInfinity, invalid = True \<rparr>]"
    by (simp add: plotBodePlot_def p)
  moreover have "spec_amplitude sweep_input_wave = 1"
    unfolding spec_amplitude_def i by simp
  moreover have "spec_amplitude sweep_flat_output = 0"
    unfolding spec_amplitude_def out by simp
  ultimately show ?thesis using len p by blast
qed

end
